theory Spec2Isabelle
  imports Main "HOL-Library.Word" "HOL-Library.Sublist" "HOL-Library.List_Lexorder"
begin

section \<open>Python values used by server\_platform.py\<close>

text \<open>
  A Python \<open>str\<close> is a sequence of Unicode code points, so it is modelled as a list of
  natural numbers (the code points); \<open>bytes\<close> is a list of 8-bit words. \<open>ustr\<close> turns
  an ASCII literal of the theory into such a string.
\<close>

type_synonym str = "nat list"
type_synonym bytes = "8 word list"

definition ustr :: "string \<Rightarrow> str" where
  "ustr s = map of_char s"

text \<open>The bytes of an ASCII literal.\<close>

definition bstr :: "string \<Rightarrow> bytes" where
  "bstr s = map of_char s"

text \<open>
  The exceptions that the module raises itself or lets through. \<open>ValueError\<close>,
  \<open>KeyError\<close>, \<open>AttributeError\<close> and \<open>PyException\<close> carry their message (for
  \<open>KeyError\<close>: the missing key). \<open>ClientResponseError\<close> is
  \<open>aiohttp.ClientResponseError\<close> with its \<open>status\<close>, \<open>message\<close> and \<open>headers\<close>
  attributes. \<open>LibraryError\<close> stands for any other exception of a library call
  (\<open>ssl.SSLError\<close>, \<open>OSError\<close>, \<open>asyncio.TimeoutError\<close>, ...).
\<close>

datatype exc =
    ValueError str
  | KeyError str
  | AttributeError str
  | PyException str
  | IndexError
  | UnicodeEncodeError
  | UnicodeDecodeError
  | OverflowError
  | BadZipFile
  | ClientResponseError int str "(str \<times> str) list option"
  | LibraryError str

subsection \<open>str.upper\<close>

text \<open>
  \<open>str.upper()\<close> maps every code point through Unicode's full upper-case mapping and
  concatenates the results. On ASCII that mapping sends \<open>a..z\<close> to \<open>A..Z\<close> and keeps
  everything else; for the code points from 128 on the table is taken as the
  parameter \<open>U\<close>.
\<close>

definition upper_cp :: "(nat \<Rightarrow> str) \<Rightarrow> nat \<Rightarrow> str" where
  "upper_cp U c = (if 97 \<le> c \<and> c \<le> 122 then [c - 32] else if c < 128 then [c] else U c)"

definition upper :: "(nat \<Rightarrow> str) \<Rightarrow> str \<Rightarrow> str" where
  "upper U s = concat (map (upper_cp U) s)"

section \<open>Password lookup by naming convention\<close>

text \<open>
  \<^verbatim>\<open>re.sub(r"[\-\.\/]", "_", key_path)\<close>: every \<open>-\<close> (45), \<open>.\<close> (46) and \<open>/\<close> (47)
  becomes \<open>_\<close> (95).
\<close>

definition re_sub_dash_dot_slash :: "str \<Rightarrow> str" where
  "re_sub_dash_dot_slash s = map (\<lambda>c. if c = 45 \<or> c = 46 \<or> c = 47 then 95 else c) s"

definition password_env_name :: "(nat \<Rightarrow> str) \<Rightarrow> str \<Rightarrow> str" where
  "password_env_name U key_path = upper U (re_sub_dash_dot_slash key_path) @ ustr ''_PASSWORD''"

section \<open>Header serialization\<close>

text \<open>\<open>_safe_header\<close>: CR is code point 13, LF is 10.\<close>

definition safe_header_msg :: str where
  "safe_header_msg = ustr ''Newline or carriage return detected in headers. Potential header injection attack.''"

definition safe_header :: "str \<Rightarrow> exc + str" where
  "safe_header string =
     (if 13 \<in> set string \<or> 10 \<in> set string then Inl (ValueError safe_header_msg)
      else Inr string)"

text \<open>\<open>sep.join(parts)\<close>.\<close>

fun join_str :: "str \<Rightarrow> str list \<Rightarrow> str" where
  "join_str sep [] = []"
| "join_str sep [x] = x"
| "join_str sep (x # y # ys) = x @ sep @ join_str sep (y # ys)"

text \<open>
  The generator expression of \<open>_py_serialize_headers\<close>, consumed by \<open>join\<close>: the items
  are visited in order, name before value, and the first failing \<open>_safe_header\<close> call
  ends the iteration.
\<close>

fun headers_gen :: "(str \<times> str) list \<Rightarrow> exc + str list" where
  "headers_gen [] = Inr []"
| "headers_gen ((k, v) # rest) =
     (case safe_header k of
        Inl e \<Rightarrow> Inl e
      | Inr k' \<Rightarrow>
          (case safe_header v of
             Inl e \<Rightarrow> Inl e
           | Inr v' \<Rightarrow>
               (case headers_gen rest of
                  Inl e \<Rightarrow> Inl e
                | Inr ls \<Rightarrow> Inr ((k' @ ustr '': '' @ v') # ls))))"

text \<open>\<open>line.encode("latin-1")\<close>: one byte per code point, and an error from 256 on.\<close>

definition encode_latin1 :: "str \<Rightarrow> exc + bytes" where
  "encode_latin1 s =
     (if list_all (\<lambda>c. c < 256) s then Inr (map of_nat s) else Inl UnicodeEncodeError)"

definition crlf :: str where
  "crlf = [13, 10]"

text \<open>\<open>_py_serialize_headers\<close>; a \<open>CIMultiDict\<close> is the list of its items.\<close>

definition py_serialize_headers :: "str \<Rightarrow> (str \<times> str) list \<Rightarrow> exc + bytes" where
  "py_serialize_headers status_line headers =
     (case headers_gen headers of
        Inl e \<Rightarrow> Inl e
      | Inr ls \<Rightarrow> encode_latin1 (status_line @ crlf @ join_str crlf ls @ crlf @ crlf))"


section \<open>Results that may be exceptions\<close>

text \<open>A call returns \<open>Inr\<close> its result or \<open>Inl\<close> the exception it raised.\<close>

fun bind_exc :: "exc + 'a \<Rightarrow> ('a \<Rightarrow> exc + 'b) \<Rightarrow> exc + 'b" where
  "bind_exc (Inl e) f = Inl e"
| "bind_exc (Inr x) f = f x"

text \<open>Python truthiness of an optional string: \<open>None\<close> and \<open>""\<close> are false.\<close>

definition truthy :: "str option \<Rightarrow> bool" where
  "truthy v = (case v of None \<Rightarrow> False | Some s \<Rightarrow> s \<noteq> [])"

section \<open>Codecs\<close>

subsection \<open>UTF-8\<close>

text \<open>
  \<open>str.encode("utf-8")\<close>: surrogates (\<open>D800..DFFF\<close>) cannot be encoded; code points
  end at \<open>10FFFF\<close>.
\<close>

definition utf8_encode_cp :: "nat \<Rightarrow> nat list option" where
  "utf8_encode_cp c =
     (if c < 0x80 then Some [c]
      else if c < 0x800 then Some [0xC0 + c div 64, 0x80 + c mod 64]
      else if c < 0x10000 then
        (if 0xD800 \<le> c \<and> c \<le> 0xDFFF then None
         else Some [0xE0 + c div 4096, 0x80 + (c div 64) mod 64, 0x80 + c mod 64])
      else if c < 0x110000 then
        Some [0xF0 + c div 262144, 0x80 + (c div 4096) mod 64, 0x80 + (c div 64) mod 64,
              0x80 + c mod 64]
      else None)"

fun utf8_encode :: "str \<Rightarrow> exc + bytes" where
  "utf8_encode [] = Inr []"
| "utf8_encode (c # cs) =
     (case utf8_encode_cp c of
        None \<Rightarrow> Inl UnicodeEncodeError
      | Some bs \<Rightarrow>
          (case utf8_encode cs of Inl e \<Rightarrow> Inl e | Inr r \<Rightarrow> Inr (map of_nat bs @ r)))"

text \<open>
  \<open>bytes.decode("utf-8")\<close> with the default \<open>strict\<close> error handler: shortest form
  only, no surrogates, nothing above \<open>10FFFF\<close>. The decoder works on the numeric
  values of the bytes.
\<close>

definition utf8_cont :: "nat \<Rightarrow> bool" where
  "utf8_cont b = (0x80 \<le> b \<and> b \<le> 0xBF)"

definition utf8_cons :: "nat \<Rightarrow> exc + str \<Rightarrow> exc + str" where
  "utf8_cons c r = (case r of Inl e \<Rightarrow> Inl e | Inr s \<Rightarrow> Inr (c # s))"

fun utf8_decode_nat :: "nat list \<Rightarrow> exc + str" where
  "utf8_decode_nat [] = Inr []"
| "utf8_decode_nat (a # bs) =
     (if a < 0x80 then utf8_cons a (utf8_decode_nat bs)
      else if 0xC2 \<le> a \<and> a \<le> 0xDF then
        (case bs of
           b # r \<Rightarrow>
             if utf8_cont b then utf8_cons ((a - 0xC0) * 64 + (b - 0x80)) (utf8_decode_nat r)
             else Inl UnicodeDecodeError
         | _ \<Rightarrow> Inl UnicodeDecodeError)
      else if 0xE0 \<le> a \<and> a \<le> 0xEF then
        (case bs of
           b # c # r \<Rightarrow>
             if (if a = 0xE0 then 0xA0 else 0x80) \<le> b \<and> b \<le> (if a = 0xED then 0x9F else 0xBF)
                \<and> utf8_cont c
             then utf8_cons ((a - 0xE0) * 4096 + (b - 0x80) * 64 + (c - 0x80)) (utf8_decode_nat r)
             else Inl UnicodeDecodeError
         | _ \<Rightarrow> Inl UnicodeDecodeError)
      else if 0xF0 \<le> a \<and> a \<le> 0xF4 then
        (case bs of
           b # c # d # r \<Rightarrow>
             if (if a = 0xF0 then 0x90 else 0x80) \<le> b \<and> b \<le> (if a = 0xF4 then 0x8F else 0xBF)
                \<and> utf8_cont c \<and> utf8_cont d
             then utf8_cons ((a - 0xF0) * 262144 + (b - 0x80) * 4096 + (c - 0x80) * 64 + (d - 0x80))
                    (utf8_decode_nat r)
             else Inl UnicodeDecodeError
         | _ \<Rightarrow> Inl UnicodeDecodeError)
      else Inl UnicodeDecodeError)"

definition utf8_decode :: "bytes \<Rightarrow> exc + str" where
  "utf8_decode bs = utf8_decode_nat (map unat bs)"

subsection \<open>Base64\<close>

text \<open>\<open>base64.b64encode\<close>: the standard alphabet, padded with \<open>=\<close> (61).\<close>

definition b64_alphabet :: string where
  "b64_alphabet = ''ABCDEFGHIJKLMNOPQRSTUVWXYZabcdefghijklmnopqrstuvwxyz0123456789+/''"

definition b64_char :: "nat \<Rightarrow> 8 word" where
  "b64_char n = of_char (b64_alphabet ! n)"

fun b64encode :: "bytes \<Rightarrow> bytes" where
  "b64encode [] = []"
| "b64encode [a] =
     (let x = unat a in [b64_char (x div 4), b64_char ((x mod 4) * 16), 61, 61])"
| "b64encode [a, b] =
     (let x = unat a; y = unat b in
      [b64_char (x div 4), b64_char ((x mod 4) * 16 + y div 16), b64_char ((y mod 16) * 4), 61])"
| "b64encode (a # b # c # rest) =
     (let x = unat a; y = unat b; z = unat c in
      [b64_char (x div 4), b64_char ((x mod 4) * 16 + y div 16),
       b64_char ((y mod 16) * 4 + z div 64), b64_char (z mod 64)] @ b64encode rest)"

subsection \<open>Integers as bytes\<close>

text \<open>\<open>int.bit_length()\<close> of a number that is not negative.\<close>

fun bit_length :: "nat \<Rightarrow> nat" where
  "bit_length n = (if n = 0 then 0 else Suc (bit_length (n div 2)))"

declare bit_length.simps [simp del]

text \<open>The big-endian encoding of \<open>n\<close> on \<open>k\<close> bytes, left-padded with zero bytes.\<close>

fun be_bytes :: "nat \<Rightarrow> nat \<Rightarrow> bytes" where
  "be_bytes 0 n = []"
| "be_bytes (Suc k) n = be_bytes k (n div 256) @ [of_nat (n mod 256)]"

text \<open>
  \<open>integer.to_bytes(n, "big")\<close>, unsigned: \<open>OverflowError\<close> for a negative integer and
  for one that does not fit in \<open>n\<close> bytes.
\<close>

definition to_bytes_big :: "int \<Rightarrow> nat \<Rightarrow> exc + bytes" where
  "to_bytes_big integer n =
     (if integer < 0 \<or> 256 ^ n \<le> integer then Inl OverflowError
      else Inr (be_bytes n (nat integer)))"

text \<open>
  \<open>cryptography.utils.int_to_bytes\<close>:
  \<^verbatim>\<open>
  def int_to_bytes(integer, length=None):
      if length == 0:
          raise ValueError("length argument can't be 0")
      return integer.to_bytes(
          length or (integer.bit_length() + 7) // 8 or 1, "big"
      )
  \<close>
\<close>

definition int_to_bytes :: "int \<Rightarrow> nat option \<Rightarrow> exc + bytes" where
  "int_to_bytes integer len =
     (if len = Some 0 then Inl (ValueError (ustr ''length argument can't be 0''))
      else
        to_bytes_big integer
          (case len of
             Some l \<Rightarrow> l
           | None \<Rightarrow>
               (let b = (bit_length (nat \<bar>integer\<bar>) + 7) div 8 in if b = 0 then 1 else b)))"

section \<open>The process environment\<close>

text \<open>
  \<open>os.environ\<close> keeps the variables under their encoded names. A name is encoded with
  the file system encoding, UTF-8, and the \<open>surrogateescape\<close> handler: the code points
  \<open>DC80..DCFF\<close> stand for the bytes \<open>80..FF\<close>, and any other surrogate raises
  \<open>UnicodeEncodeError\<close>.
\<close>

definition fsencode_cp :: "nat \<Rightarrow> nat list option" where
  "fsencode_cp c =
     (if 0xDC80 \<le> c \<and> c \<le> 0xDCFF then Some [c - 0xDC00] else utf8_encode_cp c)"

fun fsencode :: "str \<Rightarrow> exc + bytes" where
  "fsencode [] = Inr []"
| "fsencode (c # cs) =
     (case fsencode_cp c of
        None \<Rightarrow> Inl UnicodeEncodeError
      | Some bs \<Rightarrow>
          (case fsencode cs of Inl e \<Rightarrow> Inl e | Inr r \<Rightarrow> Inr (map of_nat bs @ r)))"

text \<open>
  \<open>os.environ.get(name)\<close>: the name is encoded first, then looked up; only the
  \<open>KeyError\<close> of a missing variable becomes \<open>None\<close>. The environment maps encoded
  names to the values as \<open>os.environ\<close> decodes them.
\<close>

definition environ_get :: "(bytes \<rightharpoonup> str) \<Rightarrow> str \<Rightarrow> exc + str option" where
  "environ_get env name =
     (case fsencode name of Inl e \<Rightarrow> Inl e | Inr k \<Rightarrow> Inr (env k))"

text \<open>\<open>_read_key_password\<close>; \<open>env\<close> is \<open>os.environ\<close>.\<close>

definition read_key_password ::
  "(nat \<Rightarrow> str) \<Rightarrow> (bytes \<rightharpoonup> str) \<Rightarrow> str \<Rightarrow> exc + str option" where
  "read_key_password U env key_path = environ_get env (password_env_name U key_path)"

section \<open>DER signatures\<close>

text \<open>
  \<open>cryptography\<close>'s \<open>decode_dss_signature\<close> parses, in strict DER, the structure
  \<^verbatim>\<open>Dss-Sig-Value ::= SEQUENCE { r INTEGER, s INTEGER }\<close>
  with both integers unsigned, and raises \<open>ValueError\<close> on anything else: lengths in
  the shortest definite form (at most four length bytes), integers in the shortest
  form and not negative, nothing after \<open>s\<close> and nothing after the sequence.
\<close>

text \<open>The big-endian number of a byte string.\<close>

definition be_nat :: "nat list \<Rightarrow> nat" where
  "be_nat bs = foldl (\<lambda>acc b. acc * 256 + b) 0 bs"

definition der_length :: "nat list \<Rightarrow> (nat \<times> nat list) option" where
  "der_length bs =
     (case bs of
        [] \<Rightarrow> None
      | b # r \<Rightarrow>
          if b < 128 then Some (b, r)
          else
            (let n = b - 128 in
             if n = 0 \<or> 4 < n \<or> length r < n then None
             else
               (let v = be_nat (take n r) in
                if (if n = 1 then v < 128 else v < 256 ^ (n - 1)) then None
                else Some (v, drop n r))))"

text \<open>One element with the expected tag: its content and what follows it.\<close>

definition der_tlv :: "nat \<Rightarrow> nat list \<Rightarrow> (nat list \<times> nat list) option" where
  "der_tlv tag bs =
     (case bs of
        [] \<Rightarrow> None
      | t # r \<Rightarrow>
          if t \<noteq> tag then None
          else
            (case der_length r of
               None \<Rightarrow> None
             | Some (n, r') \<Rightarrow> if length r' < n then None else Some (take n r', drop n r')))"

definition der_uint :: "nat list \<Rightarrow> (int \<times> nat list) option" where
  "der_uint bs =
     (case der_tlv 2 bs of
        None \<Rightarrow> None
      | Some (c, rest) \<Rightarrow>
          (case c of
             [] \<Rightarrow> None
           | c0 # cs \<Rightarrow>
               if 128 \<le> c0 then None
               else if c0 = 0 \<and> (case cs of [] \<Rightarrow> False | c1 # _ \<Rightarrow> c1 < 128) then None
               else Some (int (be_nat c), rest)))"

definition asn1_error :: exc where
  "asn1_error = ValueError (ustr ''error parsing asn1 value'')"

definition decode_dss_signature :: "bytes \<Rightarrow> exc + (int \<times> int)" where
  "decode_dss_signature signature =
     (case der_tlv 48 (map unat signature) of
        None \<Rightarrow> Inl asn1_error
      | Some (c, rest) \<Rightarrow>
          if rest \<noteq> [] then Inl asn1_error
          else
            (case der_uint c of
               None \<Rightarrow> Inl asn1_error
             | Some (r, c') \<Rightarrow>
                 (case der_uint c' of
                    None \<Rightarrow> Inl asn1_error
                  | Some (s, c'') \<Rightarrow> if c'' \<noteq> [] then Inl asn1_error else Inr (r, s))))"

section \<open>posixpath\<close>

definition startswith_sep :: "str \<Rightarrow> bool" where
  "startswith_sep s = (case s of [] \<Rightarrow> False | c # _ \<Rightarrow> c = 47)"

text \<open>\<open>os.path.join(a, b)\<close>.\<close>

definition path_join :: "str \<Rightarrow> str \<Rightarrow> str" where
  "path_join a b =
     (if startswith_sep b then b
      else if a = [] \<or> last a = 47 then a @ b
      else a @ [47] @ b)"

text \<open>\<open>s.split(sep)\<close> for a one-character separator.\<close>

fun split_sep :: "nat \<Rightarrow> str \<Rightarrow> str list" where
  "split_sep sep [] = [[]]"
| "split_sep sep (c # cs) =
     (let r = split_sep sep cs in
      if c = sep then [] # r else (c # hd r) # tl r)"

definition initial_slashes :: "str \<Rightarrow> nat" where
  "initial_slashes path =
     (if startswith_sep path then
        (if take 2 path = [47, 47] \<and> take 3 path \<noteq> [47, 47, 47] then 2 else 1)
      else 0)"

definition dot :: str where
  "dot = [46]"

definition dotdot :: str where
  "dotdot = [46, 46]"

text \<open>
  The loop of \<open>os.path.normpath\<close>:
  \<^verbatim>\<open>
  for comp in comps:
      if comp in ('', '.'):
          continue
      if (comp != '..' or (not initial_slashes and not new_comps) or
           (new_comps and new_comps[-1] == '..')):
          new_comps.append(comp)
      elif new_comps:
          new_comps.pop()
  \<close>
\<close>

fun normpath_loop :: "nat \<Rightarrow> str list \<Rightarrow> str list \<Rightarrow> str list" where
  "normpath_loop i [] new_comps = new_comps"
| "normpath_loop i (cmp # comps) new_comps =
     (if cmp = [] \<or> cmp = dot then normpath_loop i comps new_comps
      else if cmp \<noteq> dotdot \<or> (i = 0 \<and> new_comps = [])
              \<or> (new_comps \<noteq> [] \<and> last new_comps = dotdot)
        then normpath_loop i comps (new_comps @ [cmp])
      else if new_comps \<noteq> [] then normpath_loop i comps (butlast new_comps)
      else normpath_loop i comps new_comps)"

definition normpath :: "str \<Rightarrow> str" where
  "normpath path =
     (if path = [] then dot
      else
        (let i = initial_slashes path;
             new_comps = normpath_loop i (split_sep 47 path) [];
             p = join_str [47] new_comps;
             p' = (if i \<noteq> 0 then replicate i 47 @ p else p)
         in if p' = [] then dot else p'))"

text \<open>\<open>os.path.abspath(path)\<close>, with the working directory \<open>cwd\<close> of the process.\<close>

definition abspath :: "str \<Rightarrow> str \<Rightarrow> str" where
  "abspath cwd path = normpath (if \<not> startswith_sep path then path_join cwd path else path)"

text \<open>
  The loop of \<open>os.path.commonpath\<close>; \<open>s2[i]\<close> raises \<open>IndexError\<close> past the end of
  \<open>s2\<close>:
  \<^verbatim>\<open>
  common = s1
  for i, c in enumerate(s1):
      if c != s2[i]:
          common = s1[:i]
          break
  \<close>
\<close>

fun common_loop :: "str list \<Rightarrow> str list \<Rightarrow> exc + str list" where
  "common_loop [] s2 = Inr []"
| "common_loop (c # s1) [] = Inl IndexError"
| "common_loop (c # s1) (d # s2) =
     (if c \<noteq> d then Inr []
      else (case common_loop s1 s2 of Inl e \<Rightarrow> Inl e | Inr r \<Rightarrow> Inr (c # r)))"

text \<open>The list comprehension \<^verbatim>\<open>[c for c in s if c and c != curdir]\<close>.\<close>

definition path_comps :: "str \<Rightarrow> str list" where
  "path_comps p = filter (\<lambda>c. c \<noteq> [] \<and> c \<noteq> dot) (split_sep 47 p)"

text \<open>
  \<open>os.path.commonpath([p1, p2])\<close>. \<open>min\<close> and \<open>max\<close> compare the lists of components
  lexicographically, and the components by code points, as Python does.
\<close>

definition commonpath2 :: "str \<Rightarrow> str \<Rightarrow> exc + str" where
  "commonpath2 p1 p2 =
     (if startswith_sep p1 \<noteq> startswith_sep p2
      then Inl (ValueError (ustr ''Can't mix absolute and relative paths''))
      else
        (let isabs = startswith_sep p1;
             c1 = path_comps p1;
             c2 = path_comps p2;
             s1 = min c1 c2;
             s2 = max c1 c2
         in case common_loop s1 s2 of
              Inl e \<Rightarrow> Inl e
            | Inr common \<Rightarrow> Inr ((if isabs then [47] else []) @ join_str [47] common)))"

section \<open>The surroundings of the server platform\<close>

text \<open>The classes of private key that \<open>load_pem_private_key\<close> returns, with a handle.\<close>

datatype private_key =
    RSAPrivateKey nat
  | EllipticCurvePrivateKey nat
  | DSAPrivateKey nat
  | DHPrivateKey nat
  | Ed25519PrivateKey nat
  | Ed448PrivateKey nat
  | X25519PrivateKey nat
  | X448PrivateKey nat

text \<open>\<open>hashes.SHA256\<close> and the two RSA paddings of \<open>signWithKey\<close>.\<close>

datatype hash_alg = SHA256

definition digest_size :: "hash_alg \<Rightarrow> nat" where
  "digest_size h = (case h of SHA256 \<Rightarrow> 32)"

datatype rsa_padding = PSS_MGF1 hash_alg nat | PKCS1v15

datatype verify_mode = CERT_NONE | CERT_OPTIONAL | CERT_REQUIRED

text \<open>The numeric value of a \<open>ssl.VerifyMode\<close> member.\<close>

definition verify_mode_int :: "verify_mode \<Rightarrow> int" where
  "verify_mode_int m = (case m of CERT_NONE \<Rightarrow> 0 | CERT_OPTIONAL \<Rightarrow> 1 | CERT_REQUIRED \<Rightarrow> 2)"

text \<open>
  Two bits of \<open>verify_flags\<close>, which OpenSSL reads as its verification flags:
  \<open>ssl.VERIFY_X509_TRUSTED_FIRST\<close>, set in a default context, and
  \<open>X509_V_FLAG_USE_CHECK_TIME\<close>, which makes OpenSSL check the validity period of a
  certificate against the time stored in the context (zero when none was stored) and
  not against the current time.
\<close>

definition VERIFY_X509_TRUSTED_FIRST :: int where
  "VERIFY_X509_TRUSTED_FIRST = 32768"

definition X509_V_FLAG_USE_CHECK_TIME :: int where
  "X509_V_FLAG_USE_CHECK_TIME = 2"

record ssl_context =
  check_hostname :: bool
  verify_mode :: verify_mode
  verify_flags :: int
  cert_chain :: "(str \<times> str) option"
  verify_locations :: "str list"

text \<open>\<open>models.TLS\<close> and \<open>models.MakeRequestParams\<close>, by the attributes the module reads.\<close>

record TLS =
  cert_path :: str
  key_path :: str
  ca_cert_path :: "str option"

record MakeRequestParams =
  req_method :: str
  req_origin :: str
  req_path :: str
  req_query :: "(str \<times> str) list"
  req_headers :: "(str \<times> str) list"
  req_body :: str
  req_tls :: "TLS option"

text \<open>The keyword arguments of \<open>session.request\<close>.\<close>

record request_args =
  arg_method :: str
  arg_url :: str
  arg_params :: "(str \<times> str) list"
  arg_data :: bytes
  arg_headers :: "(str \<times> str) list"
  arg_ssl :: ssl_context
  arg_allow_redirects :: "bool option"

text \<open>
  An \<open>aiohttp.ClientResponse\<close>: its status, the items of its headers, and what
  \<open>await response.read()\<close> and \<open>await response.text()\<close> give.
\<close>

record client_response =
  resp_status :: int
  resp_headers :: "(str \<times> str) list"
  resp_read :: "exc + bytes"
  resp_text :: "exc + str"

text \<open>An open \<open>zipfile.ZipFile\<close>: \<open>namelist()\<close> and \<open>read(name)\<close>.\<close>

record zip_archive =
  namelist :: "str list"
  zip_read :: "str \<Rightarrow> exc + bytes"

text \<open>The dictionary that \<open>makeRequest\<close> returns.\<close>

record relay_result =
  res_status :: int
  res_response :: str
  res_headers :: "(str \<times> str) list"

text \<open>
  Everything the module takes from outside itself: the process environment and working
  directory, the Unicode upper-case table beyond ASCII, the key normalisation of
  \<open>multidict\<close> (header names compare case-insensitively), the default verify flags of
  \<open>ssl\<close>, and the library calls that touch files, the network or key material.
  \<open>load_cert_chain\<close> and \<open>load_verify_locations\<close> return the exception they raise,
  if any.
\<close>

record world =
  environ :: "bytes \<rightharpoonup> str"
  getcwd :: str
  unicode_upper :: "nat \<Rightarrow> str"
  multidict_identity :: "str \<Rightarrow> str"
  default_verify_flags :: int
  load_cert_chain :: "str \<Rightarrow> str \<Rightarrow> (exc + str option) \<Rightarrow> exc option"
  load_verify_locations :: "str \<Rightarrow> exc option"
  session_request :: "request_args \<Rightarrow> exc + client_response"
  ZipFile :: "bytes \<Rightarrow> exc + zip_archive"
  open_rb_read :: "str \<Rightarrow> exc + bytes"
  load_pem_private_key :: "bytes \<Rightarrow> bytes option \<Rightarrow> exc + private_key"
  rsa_sign :: "nat \<Rightarrow> bytes \<Rightarrow> rsa_padding \<Rightarrow> hash_alg \<Rightarrow> exc + bytes"
  ec_sign :: "nat \<Rightarrow> bytes \<Rightarrow> hash_alg \<Rightarrow> exc + bytes"

text \<open>\<open>os.getenv(name)\<close> and \<open>_read_key_password\<close> in a world.\<close>

definition getenv :: "world \<Rightarrow> str \<Rightarrow> exc + str option" where
  "getenv w name = environ_get (environ w) name"

definition key_password :: "world \<Rightarrow> str \<Rightarrow> exc + str option" where
  "key_password w kp = read_key_password (unicode_upper w) (environ w) kp"

section \<open>Certificate store\<close>

text \<open>
  The class attribute
  \<^verbatim>\<open>OB_CERTS_DIR = os.path.abspath(os.environ.get("OB_CERTS_DIR", "/app/open_banking_certs"))\<close>.
  The name is an ASCII literal: it is encoded as its own bytes, and the lookup
  cannot raise.
\<close>

definition OB_CERTS_DIR :: "world \<Rightarrow> str" where
  "OB_CERTS_DIR w =
     abspath (getcwd w)
       (case environ w (bstr ''OB_CERTS_DIR'') of
          None \<Rightarrow> ustr ''/app/open_banking_certs''
        | Some d \<Rightarrow> d)"

definition not_inside_msg :: "str \<Rightarrow> str" where
  "not_inside_msg p = p @ ustr '' is not inside open banking certificates directory''"

text \<open>\<open>ServerPlatform._get_ob_certs_file_path\<close>.\<close>

definition get_ob_certs_file_path :: "world \<Rightarrow> str \<Rightarrow> exc + str" where
  "get_ob_certs_file_path w p =
     (let ap = abspath (getcwd w) (path_join (OB_CERTS_DIR w) p) in
      case commonpath2 (OB_CERTS_DIR w) ap of
        Inl e \<Rightarrow> Inl e
      | Inr cp \<Rightarrow> if cp \<noteq> OB_CERTS_DIR w then Inl (ValueError (not_inside_msg p)) else Inr ap)"

section \<open>TLS context\<close>

text \<open>\<open>ssl.create_default_context()\<close> and \<open>ssl._create_unverified_context()\<close>.\<close>

definition create_default_context :: "world \<Rightarrow> ssl_context" where
  "create_default_context w =
     \<lparr>check_hostname = True, verify_mode = CERT_REQUIRED,
      verify_flags = default_verify_flags w, cert_chain = None, verify_locations = []\<rparr>"

definition create_unverified_context :: "world \<Rightarrow> ssl_context" where
  "create_unverified_context w =
     \<lparr>check_hostname = False, verify_mode = CERT_NONE,
      verify_flags = default_verify_flags w, cert_chain = None, verify_locations = []\<rparr>"

definition ca_required_msg :: str where
  "ca_required_msg = ustr ''ca_cert_path must be specified when verify_cert is set''"

definition raise_opt :: "exc option \<Rightarrow> 'a \<Rightarrow> exc + 'a" where
  "raise_opt r x = (case r of None \<Rightarrow> Inr x | Some e \<Rightarrow> Inl e)"

text \<open>
  \<open>ServerPlatform.get_ssl_context\<close>. The arguments of \<open>load_cert_chain\<close> are evaluated
  from left to right; its third argument is a callback that returns
  \<open>_read_key_password(tls.key_path)\<close>, passed here as what the callback returns or
  raises when the library calls it. The strict branch assigns \<open>ssl.CERT_REQUIRED\<close>
  to \<open>verify_flags\<close>.
\<close>

definition get_ssl_context :: "world \<Rightarrow> TLS option \<Rightarrow> exc + ssl_context" where
  "get_ssl_context w tls =
     (case tls of
        None \<Rightarrow> Inr (create_unverified_context w)
      | Some t \<Rightarrow>
          bind_exc (get_ob_certs_file_path w (cert_path t)) (\<lambda>certfile.
          bind_exc (get_ob_certs_file_path w (key_path t)) (\<lambda>keyfile.
          bind_exc (raise_opt (load_cert_chain w certfile keyfile (key_password w (key_path t)))
                      ((create_default_context w)\<lparr>cert_chain := Some (certfile, keyfile)\<rparr>))
            (\<lambda>ctx1.
          bind_exc
            (if truthy (ca_cert_path t) then
               bind_exc (get_ob_certs_file_path w (the (ca_cert_path t))) (\<lambda>cafile.
                 raise_opt (load_verify_locations w cafile)
                   (ctx1\<lparr>verify_locations := verify_locations ctx1 @ [cafile]\<rparr>))
             else Inr ctx1)
            (\<lambda>ctx2.
          bind_exc (getenv w (ustr ''verify_cert'')) (\<lambda>verify_cert.
          if truthy verify_cert then
            (if \<not> truthy (ca_cert_path t) then Inl (PyException ca_required_msg)
             else Inr (ctx2\<lparr>verify_flags := verify_mode_int CERT_REQUIRED\<rparr>))
          else Inr (ctx2\<lparr>check_hostname := False, verify_mode := CERT_NONE\<rparr>)))))))"

section \<open>Request relay\<close>

text \<open>
  \<open>ServerPlatform._handle_binary_response\<close>: only \<open>zipfile.BadZipFile\<close> is caught;
  \<open>archive.namelist()[0]\<close> raises \<open>IndexError\<close> on an archive without entries.
\<close>

definition handle_binary_response :: "world \<Rightarrow> bytes \<Rightarrow> exc + bytes" where
  "handle_binary_response w response =
     (case bind_exc (ZipFile w response) (\<lambda>archive.
             case namelist archive of
               [] \<Rightarrow> Inl IndexError
             | n # _ \<Rightarrow> zip_read archive n) of
        Inl BadZipFile \<Rightarrow> Inr response
      | Inl e \<Rightarrow> Inl e
      | Inr content \<Rightarrow> Inr content)"

text \<open>\<open>headers.get(name)\<close> on a case-insensitive multidict: the first value of the key.\<close>

definition headers_get :: "world \<Rightarrow> (str \<times> str) list \<Rightarrow> str \<Rightarrow> str option" where
  "headers_get w hs name =
     map_of (map (\<lambda>(k, v). (multidict_identity w k, v)) hs) (multidict_identity w name)"

text \<open>The body of the \<open>async with session.request(...) as response\<close> block.\<close>

definition read_response :: "world \<Rightarrow> client_response \<Rightarrow> exc + relay_result" where
  "read_response w response =
     bind_exc
       (if headers_get w (resp_headers response) (ustr ''Content-Type'')
             = Some (ustr ''application/octet-stream'')
        then bind_exc (resp_read response) (\<lambda>raw.
             bind_exc (handle_binary_response w raw) utf8_decode)
        else resp_text response)
       (\<lambda>response_text.
          Inr \<lparr>res_status = resp_status response, res_response = response_text,
               res_headers = resp_headers response\<rparr>)"

text \<open>
  \<open>ServerPlatform.makeRequest\<close>. The body is encoded and the TLS context built before
  the \<open>try\<close>; the handler catches \<open>aiohttp.ClientResponseError\<close> only. In the
  handler, \<open>e.headers\<close> that is \<open>None\<close> or has no items is false and gives the empty
  list, which is also the list of the items of headers without items.
\<close>

definition makeRequest :: "world \<Rightarrow> MakeRequestParams \<Rightarrow> bool option \<Rightarrow> exc + relay_result" where
  "makeRequest w request follow_redirects =
     (let url = req_origin request @ req_path request in
      bind_exc (utf8_encode (req_body request)) (\<lambda>data.
      bind_exc (get_ssl_context w (req_tls request)) (\<lambda>ssl_ctx.
        case bind_exc
               (session_request w
                  \<lparr>arg_method = req_method request, arg_url = url,
                   arg_params = req_query request, arg_data = data,
                   arg_headers = req_headers request, arg_ssl = ssl_ctx,
                   arg_allow_redirects = follow_redirects\<rparr>)
               (read_response w) of
          Inl (ClientResponseError st msg hs) \<Rightarrow>
            Inr \<lparr>res_status = st, res_response = msg,
                 res_headers = (case hs of None \<Rightarrow> [] | Some items \<Rightarrow> items)\<rparr>
        | Inl e \<Rightarrow> Inl e
        | Inr result \<Rightarrow> Inr result)))"

section \<open>Signature service\<close>

datatype str_or_bytes = Str str | Bytes bytes

text \<open>\<open>ServerPlatform._force_bytes\<close>.\<close>

definition force_bytes :: "str_or_bytes \<Rightarrow> exc + bytes" where
  "force_bytes v = (case v of Str s \<Rightarrow> utf8_encode s | Bytes b \<Rightarrow> Inr b)"

text \<open>Subscription \<open>d[k]\<close> of a dictionary: \<open>KeyError(k)\<close> for a missing key.\<close>

definition dict_getitem :: "(str \<rightharpoonup> 'v) \<Rightarrow> str \<Rightarrow> exc + 'v" where
  "dict_getitem d k = (case d k of None \<Rightarrow> Inl (KeyError k) | Some v \<Rightarrow> Inr v)"

text \<open>
  The message of both hash-algorithm errors:
  \<^verbatim>\<open>f"Wrong hash algorithm: {hash_algorithm}. Allowed: {list(hash_algorithms_map.keys())}"\<close>.
\<close>

definition wrong_hash_msg :: "str \<Rightarrow> str" where
  "wrong_hash_msg h = ustr ''Wrong hash algorithm: '' @ h @ ustr ''. Allowed: ['SHA256']''"

text \<open>The dictionary \<^verbatim>\<open>{"SHA256": 256}\<close> of \<open>_decode_signature\<close>.\<close>

definition hash_bits_map :: "str \<rightharpoonup> nat" where
  "hash_bits_map = [ustr ''SHA256'' \<mapsto> 256]"

text \<open>\<open>ServerPlatform._decode_signature\<close>: \<open>KeyError\<close> becomes a \<open>ValueError\<close>.\<close>

definition decode_signature :: "bytes \<Rightarrow> str \<Rightarrow> exc + bytes" where
  "decode_signature signature hash_algorithm =
     (case dict_getitem hash_bits_map hash_algorithm of
        Inl (KeyError _) \<Rightarrow> Inl (ValueError (wrong_hash_msg hash_algorithm))
      | Inl e \<Rightarrow> Inl e
      | Inr num_bits \<Rightarrow>
          (let num_bytes = (num_bits + 7) div 8 in
           bind_exc (decode_dss_signature signature) (\<lambda>(r, s).
           bind_exc (int_to_bytes r (Some num_bytes)) (\<lambda>rb.
           bind_exc (int_to_bytes s (Some num_bytes)) (\<lambda>sb.
             Inr (rb @ sb))))))"

text \<open>The dictionary \<^verbatim>\<open>{"SHA256": hashes.SHA256}\<close> of \<open>signWithKey\<close>.\<close>

definition hash_algorithms_map :: "str \<rightharpoonup> hash_alg" where
  "hash_algorithms_map = [ustr ''SHA256'' \<mapsto> SHA256]"

text \<open>
  Lines 299 to 308 of \<open>signWithKey\<close>: the default, the upper-casing and the lookup,
  whose handler is \<open>except AttributeError\<close>. The result is the normalised selector
  with the hash class.
\<close>

definition select_hash :: "world \<Rightarrow> str option \<Rightarrow> exc + (str \<times> hash_alg)" where
  "select_hash w hash_algorithm =
     (let h0 = (case hash_algorithm of None \<Rightarrow> ustr ''SHA256'' | Some h \<Rightarrow> h);
          h = upper (unicode_upper w) h0
      in case dict_getitem hash_algorithms_map h of
           Inl (AttributeError _) \<Rightarrow> Inl (AttributeError (wrong_hash_msg h))
         | Inl e \<Rightarrow> Inl e
         | Inr hash_obj \<Rightarrow> Inr (h, hash_obj))"

text \<open>
  Lines 318 to 332: the signature starts as \<open>b""\<close>, and the \<open>if\<close>/\<open>elif\<close> on the class
  of the key has no \<open>else\<close>.
\<close>

definition sign_by_key_type ::
  "world \<Rightarrow> private_key \<Rightarrow> bytes \<Rightarrow> str \<Rightarrow> hash_alg \<Rightarrow> str option \<Rightarrow> exc + bytes" where
  "sign_by_key_type w key data hash_algorithm hash_obj crypto_algorithm =
     (case key of
        RSAPrivateKey k \<Rightarrow>
          if truthy crypto_algorithm \<and> crypto_algorithm = Some (ustr ''PS'')
          then rsa_sign w k data (PSS_MGF1 hash_obj (digest_size hash_obj)) hash_obj
          else rsa_sign w k data PKCS1v15 hash_obj
      | EllipticCurvePrivateKey k \<Rightarrow>
          bind_exc (ec_sign w k data hash_obj) (\<lambda>signature.
            decode_signature signature hash_algorithm)
      | _ \<Rightarrow> Inr [])"

text \<open>\<open>ServerPlatform.signWithKey\<close>.\<close>

definition signWithKey ::
  "world \<Rightarrow> str_or_bytes \<Rightarrow> str \<Rightarrow> str option \<Rightarrow> str option \<Rightarrow> exc + str" where
  "signWithKey w data kp hash_algorithm crypto_algorithm =
     bind_exc (select_hash w hash_algorithm) (\<lambda>(h, hash_obj).
     bind_exc (force_bytes data) (\<lambda>data_bytes.
     bind_exc (get_ob_certs_file_path w kp) (\<lambda>key_file.
     bind_exc (open_rb_read w key_file) (\<lambda>pem.
     bind_exc (bind_exc (key_password w kp) (\<lambda>pw.
                 case pw of
                   None \<Rightarrow> Inr None
                 | Some p \<Rightarrow> bind_exc (utf8_encode p) (\<lambda>b. Inr (Some b)))) (\<lambda>password.
     bind_exc (load_pem_private_key w pem password) (\<lambda>key.
     bind_exc (sign_by_key_type w key data_bytes h hash_obj crypto_algorithm) (\<lambda>signature.
       utf8_decode (b64encode signature))))))))"

section \<open>A concrete world\<close>

text \<open>
  A world to run the operations in: no environment variable is set (so the certificate
  root is the default \<open>/app/open_banking_certs\<close>), every file is empty and loads, the
  key file holds an Ed25519 key, no body is a zip archive, and the network is
  unreachable. Theorems about concrete inputs update the fields they need.
\<close>

definition demo_world :: world where
  "demo_world =
     \<lparr>environ = Map.empty,
      getcwd = ustr ''/srv'',
      unicode_upper = (\<lambda>c. [c]),
      multidict_identity = map (\<lambda>c. if 65 \<le> c \<and> c \<le> 90 then c + 32 else c),
      default_verify_flags = VERIFY_X509_TRUSTED_FIRST,
      load_cert_chain = (\<lambda>certfile keyfile password. None),
      load_verify_locations = (\<lambda>cafile. None),
      session_request = (\<lambda>args. Inl (LibraryError (ustr ''ClientConnectorError''))),
      ZipFile = (\<lambda>bs. Inl BadZipFile),
      open_rb_read = (\<lambda>p. Inr []),
      load_pem_private_key = (\<lambda>pem password. Inr (Ed25519PrivateKey 0)),
      rsa_sign = (\<lambda>k d p h. Inr []),
      ec_sign = (\<lambda>k d h. Inr [])\<rparr>"

text \<open>
  The DER encoding of an ECDSA signature made with a key on a 384-bit curve (P-384):
  a sequence of two integers of 48 bytes each, here \<open>r = s = 2 ^ 380\<close>.
\<close>

definition p384_signature :: bytes where
  "p384_signature =
     [48, 100,
      2, 48, 16, 0, 0, 0, 0, 0, 0, 0, 0, 0, 0, 0, 0, 0, 0, 0, 0, 0, 0, 0, 0, 0, 0, 0, 0,
      0, 0, 0, 0, 0, 0, 0, 0, 0, 0, 0, 0, 0, 0, 0, 0, 0, 0, 0, 0, 0, 0, 0,
      2, 48, 16, 0, 0, 0, 0, 0, 0, 0, 0, 0, 0, 0, 0, 0, 0, 0, 0, 0, 0, 0, 0, 0, 0, 0, 0,
      0, 0, 0, 0, 0, 0, 0, 0, 0, 0, 0, 0, 0, 0, 0, 0, 0, 0, 0, 0, 0, 0, 0]"

section \<open>Properties\<close>

subsection \<open>Password lookup\<close>

lemma upper_ascii:
  "list_all (\<lambda>c. c < 128) s \<Longrightarrow>
   upper U s = map (\<lambda>c. if 97 \<le> c \<and> c \<le> 122 then c - 32 else c) s"
  by (induction s) (simp_all add: upper_def upper_cp_def)

lemma re_sub_ascii:
  "list_all (\<lambda>c. c < 128) s \<Longrightarrow> list_all (\<lambda>c. c < 128) (re_sub_dash_dot_slash s)"
  by (induction s) (simp_all add: re_sub_dash_dot_slash_def)

lemma password_env_name_ascii:
  assumes "list_all (\<lambda>c. c < 128) k"
  shows "password_env_name U k
          = map (\<lambda>c. if c = 45 \<or> c = 46 \<or> c = 47 then 95
                      else if 97 \<le> c \<and> c \<le> 122 then c - 32 else c) k @ ustr ''_PASSWORD''"
  using upper_ascii [OF re_sub_ascii [OF assms], of U]
  by (simp add: password_env_name_def re_sub_dash_dot_slash_def)

lemma password_env_name_ascii_range:
  assumes "list_all (\<lambda>c. c < 128) k"
  shows "list_all (\<lambda>c. c < 128) (password_env_name U k)"
proof -
  have "list_all (\<lambda>c. c < 128)
          (map (\<lambda>c. if c = 45 \<or> c = 46 \<or> c = 47 then 95
                      else if 97 \<le> c \<and> c \<le> 122 then c - 32 else c) k)"
    using assms by (induction k) auto
  moreover have "list_all (\<lambda>c. c < 128) (ustr ''_PASSWORD'')"
    by (simp add: ustr_def)
  ultimately show ?thesis
    by (simp add: password_env_name_ascii [OF assms])
qed

lemma fsencode_ascii: "list_all (\<lambda>c. c < 128) s \<Longrightarrow> fsencode s = Inr (map of_nat s)"
  by (induction s) (simp_all add: fsencode_cp_def utf8_encode_cp_def)

lemma fsencode_error: "fsencode s = Inl e \<Longrightarrow> e = UnicodeEncodeError"
  by (induction s arbitrary: e) (auto split: option.splits sum.splits)

text \<open>
  C9, as amended. For every key path \<open>k\<close>, \<open>_read_key_password\<close> derives the name of
  the environment variable as \<open>k\<close> with every \<open>-\<close>, \<open>.\<close> and \<open>/\<close> replaced by \<open>_\<close>,
  upper-cased, followed by \<open>_PASSWORD\<close>. When that name can be encoded for the
  environment, it returns the value of the variable, and \<open>None\<close> when the variable is
  unset; when it cannot (a lone surrogate in the key path), the lookup raises
  \<open>UnicodeEncodeError\<close>. For an ASCII key path the name is fixed character by
  character, whatever the Unicode table, and it can always be encoded;
  \<open>certs/bank-1.key\<close> gives \<open>CERTS_BANK_1_KEY_PASSWORD\<close>.
\<close>

theorem read_key_password_by_convention:
  "read_key_password U env k
     = (case fsencode (upper U (map (\<lambda>c. if c = 45 \<or> c = 46 \<or> c = 47 then 95 else c) k)
                         @ ustr ''_PASSWORD'') of
          Inl e \<Rightarrow> Inl UnicodeEncodeError
        | Inr name \<Rightarrow> Inr (env name))
   \<and> (\<forall>name. fsencode (password_env_name U k) = Inr name \<and> env name = None \<longrightarrow>
         read_key_password U env k = Inr None)
   \<and> (list_all (\<lambda>c. c < 128) k \<longrightarrow>
        password_env_name U k
          = map (\<lambda>c. if c = 45 \<or> c = 46 \<or> c = 47 then 95
                      else if 97 \<le> c \<and> c \<le> 122 then c - 32 else c) k @ ustr ''_PASSWORD''
        \<and> read_key_password U env k = Inr (env (map of_nat (password_env_name U k))))
   \<and> password_env_name U (ustr ''certs/bank-1.key'') = ustr ''CERTS_BANK_1_KEY_PASSWORD''"
proof -
  have n: "upper U (map (\<lambda>c. if c = 45 \<or> c = 46 \<or> c = 47 then 95 else c) k) @ ustr ''_PASSWORD''
             = password_env_name U k"
    by (simp add: password_env_name_def re_sub_dash_dot_slash_def)
  have a: "read_key_password U env k
     = (case fsencode (password_env_name U k) of
          Inl e \<Rightarrow> Inl UnicodeEncodeError
        | Inr name \<Rightarrow> Inr (env name))"
    by (auto simp: read_key_password_def environ_get_def split: sum.splits dest: fsencode_error)
  have b: "\<forall>name. fsencode (password_env_name U k) = Inr name \<and> env name = None \<longrightarrow>
         read_key_password U env k = Inr None"
    by (simp add: a)
  have c: "read_key_password U env k = Inr (env (map of_nat (password_env_name U k)))"
    if "list_all (\<lambda>c. c < 128) k"
    using fsencode_ascii [OF password_env_name_ascii_range [OF that, of U]] by (simp add: a)
  have d: "password_env_name U (ustr ''certs/bank-1.key'') = ustr ''CERTS_BANK_1_KEY_PASSWORD''"
    by (simp add: password_env_name_def re_sub_dash_dot_slash_def upper_def upper_cp_def ustr_def)
  show ?thesis
    unfolding n using a b c d password_env_name_ascii [of k U] by blast
qed

theorem read_key_password_by_convention_witness:
  "list_all (\<lambda>c. c < 128) (ustr ''certs/bank-1.key'')
   \<and> read_key_password (\<lambda>c. [c]) Map.empty (ustr ''certs/bank-1.key'') = Inr None
   \<and> read_key_password (\<lambda>c. [c]) [bstr ''CERTS_BANK_1_KEY_PASSWORD'' \<mapsto> ustr ''s3cret'']
        (ustr ''certs/bank-1.key'') = Inr (Some (ustr ''s3cret''))"
proof -
  let ?k = "ustr ''certs/bank-1.key''"
  let ?env = "[bstr ''CERTS_BANK_1_KEY_PASSWORD'' \<mapsto> ustr ''s3cret'']"
  have a: "list_all (\<lambda>c. c < 128) ?k"
    by (simp add: ustr_def)
  have e: "map of_nat (ustr ''CERTS_BANK_1_KEY_PASSWORD'') = bstr ''CERTS_BANK_1_KEY_PASSWORD''"
    by (simp add: ustr_def bstr_def)
  have n: "password_env_name (\<lambda>c. [c]) ?k = ustr ''CERTS_BANK_1_KEY_PASSWORD''"
    and r0: "read_key_password (\<lambda>c. [c]) Map.empty ?k
               = Inr (Map.empty (map of_nat (password_env_name (\<lambda>c. [c]) ?k)))"
    using read_key_password_by_convention [of "\<lambda>c. [c]" Map.empty ?k] a by blast+
  have r1: "read_key_password (\<lambda>c. [c]) ?env ?k
               = Inr (?env (map of_nat (password_env_name (\<lambda>c. [c]) ?k)))"
    using read_key_password_by_convention [of "\<lambda>c. [c]" ?env ?k] a by blast
  show ?thesis
    using a r0 r1 by (simp add: n e)
qed

text \<open>
  The claim as first stated fails on a key path that holds a lone surrogate, the code
  point \<open>D800\<close> (55296), which upper-casing leaves as it is: no variable is set, and
  the lookup raises \<open>UnicodeEncodeError\<close> where the claim has it return \<open>None\<close>.
\<close>

theorem read_key_password_counterexample:
  "password_env_name (\<lambda>c. [c]) [55296] = [55296] @ ustr ''_PASSWORD''
   \<and> read_key_password (\<lambda>c. [c]) Map.empty [55296] = Inl UnicodeEncodeError"
  by (simp add: read_key_password_def environ_get_def password_env_name_def
      re_sub_dash_dot_slash_def upper_def upper_cp_def ustr_def fsencode_cp_def
      utf8_encode_cp_def)

subsection \<open>Header serialization\<close>

lemma headers_gen_cases:
  "headers_gen hs =
     (if list_ex (\<lambda>(k, v). 13 \<in> set k \<or> 10 \<in> set k \<or> 13 \<in> set v \<or> 10 \<in> set v) hs
      then Inl (ValueError safe_header_msg)
      else Inr (map (\<lambda>(k, v). k @ ustr '': '' @ v) hs))"
  by (induction hs rule: headers_gen.induct) (auto simp: safe_header_def)

lemma map_unat_latin1:
  "list_all (\<lambda>c. c < 256) s \<Longrightarrow> map unat (map of_nat s :: bytes) = s"
  by (induction s) (simp_all add: unat_of_nat)

text \<open>
  C2, as amended. \<open>_py_serialize_headers\<close> raises the \<open>ValueError\<close> of \<open>_safe_header\<close>
  if and only if some header name or value contains CR or LF. For headers free of
  them, it returns the status line, CRLF, the \<open>name: value\<close> lines joined with CRLF,
  and two CRLF, one byte per character with the code point as the byte, provided
  every character of the status line and of the headers is below 256; when one is
  not, it raises \<open>UnicodeEncodeError\<close>.
\<close>

theorem py_serialize_headers_latin1:
  "((\<exists>m. py_serialize_headers st hs = Inl (ValueError m))
      \<longleftrightarrow> list_ex (\<lambda>(k, v). 13 \<in> set k \<or> 10 \<in> set k \<or> 13 \<in> set v \<or> 10 \<in> set v) hs)
   \<and> (\<not> list_ex (\<lambda>(k, v). 13 \<in> set k \<or> 10 \<in> set k \<or> 13 \<in> set v \<or> 10 \<in> set v) hs \<longrightarrow>
        (let line = st @ crlf @ join_str crlf (map (\<lambda>(k, v). k @ ustr '': '' @ v) hs) @ crlf @ crlf
         in if list_all (\<lambda>c. c < 256) line
            then (\<exists>bs. py_serialize_headers st hs = Inr bs \<and> map unat bs = line
                        \<and> length bs = length line)
            else py_serialize_headers st hs = Inl UnicodeEncodeError))"
proof -
  let ?bad = "list_ex (\<lambda>(k, v). 13 \<in> set k \<or> 10 \<in> set k \<or> 13 \<in> set v \<or> 10 \<in> set v) hs"
  let ?line = "st @ crlf @ join_str crlf (map (\<lambda>(k, v). k @ ustr '': '' @ v) hs) @ crlf @ crlf"
  have bad: "?bad \<Longrightarrow> py_serialize_headers st hs = Inl (ValueError safe_header_msg)"
    by (simp add: py_serialize_headers_def headers_gen_cases)
  have good: "\<not> ?bad \<Longrightarrow> py_serialize_headers st hs = encode_latin1 ?line"
    by (simp add: py_serialize_headers_def headers_gen_cases)
  have enc: "encode_latin1 ?line \<noteq> Inl (ValueError m)" for m
    by (simp add: encode_latin1_def)
  have first: "(\<exists>m. py_serialize_headers st hs = Inl (ValueError m)) \<longleftrightarrow> ?bad"
    using bad good enc by (cases ?bad) auto
  have second: "\<not> ?bad \<Longrightarrow> list_all (\<lambda>c. c < 256) ?line \<Longrightarrow>
      \<exists>bs. py_serialize_headers st hs = Inr bs \<and> map unat bs = ?line \<and> length bs = length ?line"
    using good map_unat_latin1 [of ?line] by (simp add: encode_latin1_def)
  have third: "\<not> ?bad \<Longrightarrow> \<not> list_all (\<lambda>c. c < 256) ?line \<Longrightarrow>
      py_serialize_headers st hs = Inl UnicodeEncodeError"
    using good by (simp add: encode_latin1_def)
  show ?thesis
    unfolding Let_def using first second third by presburger
qed

theorem py_serialize_headers_latin1_witness:
  "\<not> list_ex (\<lambda>(k, v). 13 \<in> set k \<or> 10 \<in> set k \<or> 13 \<in> set v \<or> 10 \<in> set v)
       [(ustr ''Host'', ustr ''example.test''), (ustr ''X-Name'', [74, 246, 114, 103 :: nat])]
   \<and> py_serialize_headers (ustr ''GET /ping HTTP/1.1'')
        [(ustr ''Host'', ustr ''example.test''), (ustr ''X-Name'', [74, 246, 114, 103 :: nat])]
      = Inr (map of_nat (ustr ''GET /ping HTTP/1.1'' @ [13, 10] @ ustr ''Host: example.test''
               @ [13, 10] @ ustr ''X-Name: '' @ [74, 246, 114, 103] @ [13, 10, 13, 10]))
   \<and> list_ex (\<lambda>(k, v). 13 \<in> set k \<or> 10 \<in> set k \<or> 13 \<in> set v \<or> 10 \<in> set v)
       [(ustr ''X-A'', ustr ''1'' @ [13, 10] @ ustr ''Evil: 2'')]
   \<and> py_serialize_headers (ustr ''GET /ping HTTP/1.1'')
        [(ustr ''X-A'', ustr ''1'' @ [13, 10] @ ustr ''Evil: 2'')]
      = Inl (ValueError safe_header_msg)"
  using py_serialize_headers_latin1
      [of "ustr ''GET /ping HTTP/1.1''"
          "[(ustr ''Host'', ustr ''example.test''), (ustr ''X-Name'', [74, 246, 114, 103 :: nat])]"]
    py_serialize_headers_latin1
      [of "ustr ''GET /ping HTTP/1.1''" "[(ustr ''X-A'', ustr ''1'' @ [13, 10] @ ustr ''Evil: 2'')]"]
  by (simp add: ustr_def py_serialize_headers_def safe_header_def encode_latin1_def crlf_def)

text \<open>
  The claim as first stated fails on a header free of CR and LF that holds a
  character beyond Latin-1: the Euro sign, code point 8364.
\<close>

theorem py_serialize_headers_counterexample:
  "\<not> list_ex (\<lambda>(k, v). 13 \<in> set k \<or> 10 \<in> set k \<or> 13 \<in> set v \<or> 10 \<in> set v)
       [(ustr ''X-Price'', [8364, 53 :: nat])]
   \<and> py_serialize_headers (ustr ''GET /ping HTTP/1.1'') [(ustr ''X-Price'', [8364, 53 :: nat])]
      = Inl UnicodeEncodeError"
  by (simp add: ustr_def py_serialize_headers_def safe_header_def encode_latin1_def crlf_def)

subsection \<open>Signature service\<close>

lemma upper_SHA256: "upper U (ustr ''SHA256'') = ustr ''SHA256''"
  by (simp add: upper_def upper_cp_def ustr_def)

lemma select_hash_cases:
  "select_hash w h =
     (let n = upper (unicode_upper w) (case h of None \<Rightarrow> ustr ''SHA256'' | Some x \<Rightarrow> x)
      in if n = ustr ''SHA256'' then Inr (n, SHA256) else Inl (KeyError n))"
  by (simp add: select_hash_def dict_getitem_def hash_algorithms_map_def Let_def)


text \<open>
  C6. \<open>signWithKey\<close> takes \<open>"SHA256"\<close> when no selector is given and upper-cases the
  selector, so \<open>sha256\<close> is accepted. A selector that is not \<open>SHA256\<close> after that makes
  the dictionary lookup raise \<open>KeyError\<close>; the handler is written for
  \<open>AttributeError\<close>, so the \<open>Wrong hash algorithm\<close> error is never raised and the
  \<open>KeyError\<close> leaves \<open>signWithKey\<close> as it is.
\<close>

theorem select_hash_raises_KeyError:
  "select_hash w h =
     (let n = upper (unicode_upper w) (case h of None \<Rightarrow> ustr ''SHA256'' | Some x \<Rightarrow> x)
      in if n = ustr ''SHA256'' then Inr (n, SHA256) else Inl (KeyError n))
   \<and> select_hash w None = Inr (ustr ''SHA256'', SHA256)
   \<and> select_hash w (Some (ustr ''sha256'')) = Inr (ustr ''SHA256'', SHA256)
   \<and> (\<forall>m. select_hash w h \<noteq> Inl (AttributeError m))
   \<and> signWithKey w d kp (Some (ustr ''md5'')) c = Inl (KeyError (ustr ''MD5''))"
proof -
  have a: "select_hash w None = Inr (ustr ''SHA256'', SHA256)"
    by (simp add: select_hash_cases upper_SHA256)
  have b: "select_hash w (Some (ustr ''sha256'')) = Inr (ustr ''SHA256'', SHA256)"
    by (simp add: select_hash_cases upper_def upper_cp_def ustr_def)
  have c: "select_hash w h \<noteq> Inl (AttributeError m)" for m
    by (simp add: select_hash_cases Let_def)
  have d: "select_hash w (Some (ustr ''md5'')) = Inl (KeyError (ustr ''MD5''))"
    by (simp add: select_hash_cases upper_def upper_cp_def ustr_def)
  have e: "signWithKey w d kp (Some (ustr ''md5'')) c = Inl (KeyError (ustr ''MD5''))"
    by (simp add: signWithKey_def d)
  show ?thesis using a b c e select_hash_cases [of w h] by simp
qed

lemma key_password_ascii:
  assumes "list_all (\<lambda>c. c < 128) kp"
  shows "key_password w kp
           = Inr (environ w (map of_nat (password_env_name (unicode_upper w) kp)))"
  using fsencode_ascii [OF password_env_name_ascii_range [OF assms, of "unicode_upper w"]]
  by (simp add: key_password_def read_key_password_def environ_get_def)

lemma sign_by_key_type_other:
  "sign_by_key_type w (DSAPrivateKey k) d hn ho c = Inr []"
  "sign_by_key_type w (DHPrivateKey k) d hn ho c = Inr []"
  "sign_by_key_type w (Ed25519PrivateKey k) d hn ho c = Inr []"
  "sign_by_key_type w (Ed448PrivateKey k) d hn ho c = Inr []"
  "sign_by_key_type w (X25519PrivateKey k) d hn ho c = Inr []"
  "sign_by_key_type w (X448PrivateKey k) d hn ho c = Inr []"
  by (simp_all add: sign_by_key_type_def)

text \<open>
  C3. With a key that is neither RSA nor elliptic-curve, neither branch of the
  \<open>if\<close>/\<open>elif\<close> runs: the signature stays \<open>b""\<close> and \<open>signWithKey\<close> returns its Base64
  encoding, the empty string, and raises nothing. Here the key file
  \<open>/app/open_banking_certs/bank.key\<close> holds an Ed25519 key.
\<close>

theorem signWithKey_other_key_returns_empty:
  "get_ob_certs_file_path demo_world (ustr ''bank.key'')
     = Inr (ustr ''/app/open_banking_certs/bank.key'')
   \<and> load_pem_private_key demo_world [] None = Inr (Ed25519PrivateKey 0)
   \<and> signWithKey demo_world (Str (ustr ''payload'')) (ustr ''bank.key'') None None = Inr []"
proof -
  have p: "get_ob_certs_file_path demo_world (ustr ''bank.key'')
             = Inr (ustr ''/app/open_banking_certs/bank.key'')"
    by code_simp
  have a: "list_all (\<lambda>c. c < 128) (ustr ''bank.key'')"
    by (simp add: ustr_def)
  have k: "key_password demo_world (ustr ''bank.key'') = Inr None"
    using key_password_ascii [OF a, of demo_world] by (simp add: demo_world_def)
  have s: "select_hash demo_world None = Inr (ustr ''SHA256'', SHA256)"
    by (simp add: select_hash_cases upper_SHA256)
  have f: "force_bytes (Str (ustr ''payload'')) = Inr (bstr ''payload'')"
    by (simp add: force_bytes_def ustr_def bstr_def utf8_encode_cp_def)
  have o: "open_rb_read demo_world (ustr ''/app/open_banking_certs/bank.key'') = Inr []"
    and l: "load_pem_private_key demo_world [] None = Inr (Ed25519PrivateKey 0)"
    by (simp_all add: demo_world_def)
  have "signWithKey demo_world (Str (ustr ''payload'')) (ustr ''bank.key'') None None = Inr []"
    by (simp add: signWithKey_def s f p k o l sign_by_key_type_def utf8_decode_def)
  then show ?thesis using p l by simp
qed




lemma decode_signature_SHA256:
  "decode_signature sg (ustr ''SHA256'') =
     bind_exc (decode_dss_signature sg) (\<lambda>(r, s).
     bind_exc (int_to_bytes r (Some 32)) (\<lambda>rb.
     bind_exc (int_to_bytes s (Some 32)) (\<lambda>sb. Inr (rb @ sb))))"
  by (simp add: decode_signature_def dict_getitem_def hash_bits_map_def)




subsection \<open>TLS context\<close>

lemma bind_exc_case: "bind_exc m f = (case m of Inl e \<Rightarrow> Inl e | Inr x \<Rightarrow> f x)"
  by (cases m) simp_all

lemma raise_opt_Inr: "raise_opt r x = Inr y \<longleftrightarrow> r = None \<and> y = x"
  by (cases r) (auto simp: raise_opt_def)

text \<open>The name \<open>verify_cert\<close> is ASCII: \<open>os.getenv\<close> cannot raise on it.\<close>

lemma getenv_verify_cert:
  "getenv w (ustr ''verify_cert'') = Inr (environ w (bstr ''verify_cert''))"
proof -
  have "list_all (\<lambda>c. c < 128) (ustr ''verify_cert'')"
    by (simp add: ustr_def)
  then have "fsencode (ustr ''verify_cert'') = Inr (map of_nat (ustr ''verify_cert''))"
    by (rule fsencode_ascii)
  moreover have "map of_nat (ustr ''verify_cert'') = bstr ''verify_cert''"
    by (simp add: ustr_def bstr_def)
  ultimately show ?thesis
    by (simp add: getenv_def environ_get_def)
qed

lemma get_ssl_context_Some:
  "get_ssl_context w (Some t) =
     bind_exc (get_ob_certs_file_path w (cert_path t)) (\<lambda>certfile.
     bind_exc (get_ob_certs_file_path w (key_path t)) (\<lambda>keyfile.
     bind_exc (raise_opt (load_cert_chain w certfile keyfile (key_password w (key_path t)))
                 ((create_default_context w)\<lparr>cert_chain := Some (certfile, keyfile)\<rparr>))
       (\<lambda>ctx1.
     bind_exc
       (if truthy (ca_cert_path t) then
          bind_exc (get_ob_certs_file_path w (the (ca_cert_path t))) (\<lambda>cafile.
            raise_opt (load_verify_locations w cafile)
              (ctx1\<lparr>verify_locations := verify_locations ctx1 @ [cafile]\<rparr>))
        else Inr ctx1)
       (\<lambda>ctx2.
     if truthy (environ w (bstr ''verify_cert'')) then
       (if \<not> truthy (ca_cert_path t) then Inl (PyException ca_required_msg)
        else Inr (ctx2\<lparr>verify_flags := verify_mode_int CERT_REQUIRED\<rparr>))
     else Inr (ctx2\<lparr>check_hostname := False, verify_mode := CERT_NONE\<rparr>)))))"
  by (simp add: get_ssl_context_def getenv_verify_cert)

text \<open>The parts of the verification policy that the code keeps.\<close>

lemma strict_without_ca_never_returns:
  "truthy (environ w (bstr ''verify_cert'')) \<Longrightarrow> \<not> truthy (ca_cert_path t) \<Longrightarrow>
   get_ssl_context w (Some t) \<noteq> Inr ctx"
  by (auto simp: get_ssl_context_Some bind_exc_case split: sum.splits)

lemma strict_without_ca_raises:
  "truthy (environ w (bstr ''verify_cert'')) \<Longrightarrow> \<not> truthy (ca_cert_path t) \<Longrightarrow>
   get_ob_certs_file_path w (cert_path t) = Inr cf \<Longrightarrow>
   get_ob_certs_file_path w (key_path t) = Inr kf \<Longrightarrow>
   load_cert_chain w cf kf (key_password w (key_path t)) = None \<Longrightarrow>
   get_ssl_context w (Some t) = Inl (PyException ca_required_msg)"
  by (simp add: get_ssl_context_Some raise_opt_def)

lemma permissive_no_checks:
  "\<not> truthy (environ w (bstr ''verify_cert'')) \<Longrightarrow>
   get_ssl_context w (Some t) = Inr ctx \<Longrightarrow>
   verify_mode ctx = CERT_NONE \<and> \<not> check_hostname ctx"
  by (auto simp: get_ssl_context_Some bind_exc_case split: sum.splits if_splits)

lemma permissive_with_ca_returns:
  "\<not> truthy (environ w (bstr ''verify_cert'')) \<Longrightarrow> truthy (ca_cert_path t) \<Longrightarrow>
   get_ob_certs_file_path w (cert_path t) = Inr cf \<Longrightarrow>
   get_ob_certs_file_path w (key_path t) = Inr kf \<Longrightarrow>
   load_cert_chain w cf kf (key_password w (key_path t)) = None \<Longrightarrow>
   get_ob_certs_file_path w (the (ca_cert_path t)) = Inr caf \<Longrightarrow>
   load_verify_locations w caf = None \<Longrightarrow>
   get_ssl_context w (Some t) =
     Inr \<lparr>check_hostname = False, verify_mode = CERT_NONE,
          verify_flags = default_verify_flags w, cert_chain = Some (cf, kf),
          verify_locations = [caf]\<rparr>"
  by (simp add: get_ssl_context_Some raise_opt_def create_default_context_def)

lemma permissive_without_ca_returns:
  "\<not> truthy (environ w (bstr ''verify_cert'')) \<Longrightarrow> \<not> truthy (ca_cert_path t) \<Longrightarrow>
   get_ob_certs_file_path w (cert_path t) = Inr cf \<Longrightarrow>
   get_ob_certs_file_path w (key_path t) = Inr kf \<Longrightarrow>
   load_cert_chain w cf kf (key_password w (key_path t)) = None \<Longrightarrow>
   get_ssl_context w (Some t) =
     Inr \<lparr>check_hostname = False, verify_mode = CERT_NONE,
          verify_flags = default_verify_flags w, cert_chain = Some (cf, kf),
          verify_locations = []\<rparr>"
  by (simp add: get_ssl_context_Some raise_opt_def create_default_context_def)

text \<open>
  What the strict branch returns, in every world: the default context with the files
  loaded, and with its verification flags replaced by the number of
  \<open>ssl.CERT_REQUIRED\<close>.
\<close>

lemma strict_with_ca_returns:
  "truthy (environ w (bstr ''verify_cert'')) \<Longrightarrow> truthy (ca_cert_path t) \<Longrightarrow>
   get_ob_certs_file_path w (cert_path t) = Inr cf \<Longrightarrow>
   get_ob_certs_file_path w (key_path t) = Inr kf \<Longrightarrow>
   load_cert_chain w cf kf (key_password w (key_path t)) = None \<Longrightarrow>
   get_ob_certs_file_path w (the (ca_cert_path t)) = Inr caf \<Longrightarrow>
   load_verify_locations w caf = None \<Longrightarrow>
   get_ssl_context w (Some t) =
     Inr \<lparr>check_hostname = True, verify_mode = CERT_REQUIRED,
          verify_flags = X509_V_FLAG_USE_CHECK_TIME, cert_chain = Some (cf, kf),
          verify_locations = [caf]\<rparr>"
  by (simp add: get_ssl_context_Some raise_opt_def create_default_context_def
      verify_mode_int_def X509_V_FLAG_USE_CHECK_TIME_def)

text \<open>
  C5. With \<open>verify_cert\<close> set, a CA bundle given and every file loading,
  \<open>get_ssl_context\<close> returns a context whose \<open>verify_flags\<close> is 2: the strict branch
  assigns \<open>ssl.CERT_REQUIRED\<close> to \<open>verify_flags\<close>, not to \<open>verify_mode\<close>. The
  verification mode and the host name check of the result are those that the default
  context had before the branch; the default flag \<open>VERIFY_X509_TRUSTED_FIRST\<close> is
  gone, and the one flag set is \<open>X509_V_FLAG_USE_CHECK_TIME\<close>. So the strict branch
  does not enable the full certificate checking of the claim: it turns the check of
  the validity period away from the current time.
\<close>

theorem get_ssl_context_strict_overwrites_verify_flags:
  "get_ssl_context (demo_world\<lparr>environ := [bstr ''verify_cert'' \<mapsto> ustr ''1'']\<rparr>)
     (Some \<lparr>cert_path = ustr ''client.pem'', key_path = ustr ''client.key'',
            ca_cert_path = Some (ustr ''ca.pem'')\<rparr>)
   = Inr \<lparr>check_hostname = True, verify_mode = CERT_REQUIRED,
          verify_flags = X509_V_FLAG_USE_CHECK_TIME,
          cert_chain = Some (ustr ''/app/open_banking_certs/client.pem'',
                             ustr ''/app/open_banking_certs/client.key''),
          verify_locations = [ustr ''/app/open_banking_certs/ca.pem'']\<rparr>
   \<and> verify_flags
        (create_default_context (demo_world\<lparr>environ := [bstr ''verify_cert'' \<mapsto> ustr ''1'']\<rparr>))
      = VERIFY_X509_TRUSTED_FIRST
   \<and> X509_V_FLAG_USE_CHECK_TIME = verify_mode_int CERT_REQUIRED
   \<and> X509_V_FLAG_USE_CHECK_TIME \<noteq> VERIFY_X509_TRUSTED_FIRST"
proof -
  let ?s = "demo_world\<lparr>environ := [bstr ''verify_cert'' \<mapsto> ustr ''1'']\<rparr>"
  let ?t = "\<lparr>cert_path = ustr ''client.pem'', key_path = ustr ''client.key'',
               ca_cert_path = Some (ustr ''ca.pem'')\<rparr>"
  have c: "get_ob_certs_file_path ?s (ustr ''client.pem'')
             = Inr (ustr ''/app/open_banking_certs/client.pem'')"
    by code_simp
  have k: "get_ob_certs_file_path ?s (ustr ''client.key'')
             = Inr (ustr ''/app/open_banking_certs/client.key'')"
    by code_simp
  have a: "get_ob_certs_file_path ?s (ustr ''ca.pem'')
             = Inr (ustr ''/app/open_banking_certs/ca.pem'')"
    by code_simp
  have f: "truthy (environ ?s (bstr ''verify_cert''))"
    by (simp add: truthy_def ustr_def)
  have ca: "truthy (ca_cert_path ?t)"
    by (simp add: truthy_def ustr_def)
  have r: "get_ssl_context ?s (Some ?t)
     = Inr \<lparr>check_hostname = True, verify_mode = CERT_REQUIRED,
          verify_flags = X509_V_FLAG_USE_CHECK_TIME,
          cert_chain = Some (ustr ''/app/open_banking_certs/client.pem'',
                             ustr ''/app/open_banking_certs/client.key''),
          verify_locations = [ustr ''/app/open_banking_certs/ca.pem'']\<rparr>"
    by (rule strict_with_ca_returns [OF f ca]) (simp_all add: c k a, simp_all add: demo_world_def)
  have d: "verify_flags (create_default_context ?s) = VERIFY_X509_TRUSTED_FIRST"
    by (simp add: create_default_context_def demo_world_def)
  show ?thesis
    using r d
    by (simp add: X509_V_FLAG_USE_CHECK_TIME_def VERIFY_X509_TRUSTED_FIRST_def
        verify_mode_int_def)
qed

subsection \<open>Request relay\<close>

lemma makeRequest_try:
  "utf8_encode (req_body request) = Inr data \<Longrightarrow>
   get_ssl_context w (req_tls request) = Inr ctx \<Longrightarrow>
   makeRequest w request follow =
     (case bind_exc
             (session_request w
                \<lparr>arg_method = req_method request,
                 arg_url = req_origin request @ req_path request,
                 arg_params = req_query request, arg_data = data,
                 arg_headers = req_headers request, arg_ssl = ctx,
                 arg_allow_redirects = follow\<rparr>)
             (read_response w) of
        Inl (ClientResponseError st msg hs) \<Rightarrow>
          Inr \<lparr>res_status = st, res_response = msg,
               res_headers = (case hs of None \<Rightarrow> [] | Some items \<Rightarrow> items)\<rparr>
      | Inl e \<Rightarrow> Inl e
      | Inr result \<Rightarrow> Inr result)"
  by (simp add: makeRequest_def Let_def)

text \<open>
  C7. When the request has passed the steps before the \<open>try\<close> (its body encodes, its
  TLS context is built) and \<open>aiohttp.ClientResponseError\<close> is raised inside the \<open>try\<close>,
  by the transport call or while the response is read, \<open>makeRequest\<close> raises nothing:
  it returns the result dictionary with the status and message of the error, and
  with the items of its headers (none when the error has no headers).
\<close>

theorem makeRequest_normalizes_ClientResponseError:
  assumes "utf8_encode (req_body request) = Inr data"
    and "get_ssl_context w (req_tls request) = Inr ctx"
    and "args = \<lparr>arg_method = req_method request,
                  arg_url = req_origin request @ req_path request,
                  arg_params = req_query request, arg_data = data,
                  arg_headers = req_headers request, arg_ssl = ctx,
                  arg_allow_redirects = follow\<rparr>"
    and "session_request w args = Inl (ClientResponseError st msg hs)
         \<or> (\<exists>resp. session_request w args = Inr resp
               \<and> read_response w resp = Inl (ClientResponseError st msg hs))"
  shows "makeRequest w request follow =
           Inr \<lparr>res_status = st, res_response = msg,
                res_headers = (case hs of None \<Rightarrow> [] | Some items \<Rightarrow> items)\<rparr>"
proof -
  have "bind_exc (session_request w args) (read_response w)
          = Inl (ClientResponseError st msg hs)"
    using assms(4) by auto
  then show ?thesis
    using makeRequest_try [OF assms(1) assms(2), of follow] assms(3) by simp
qed

theorem makeRequest_normalizes_ClientResponseError_witness:
  "utf8_encode (req_body \<lparr>req_method = ustr ''GET'', req_origin = ustr ''https://example.test'',
        req_path = ustr ''/ping'', req_query = [], req_headers = [], req_body = [],
        req_tls = None\<rparr>) = Inr []
   \<and> makeRequest
        (demo_world\<lparr>session_request :=
           (\<lambda>a. Inl (ClientResponseError 502 (ustr ''Bad Gateway'')
                       (Some [(ustr ''Server'', ustr ''edge'')])))\<rparr>)
        \<lparr>req_method = ustr ''GET'', req_origin = ustr ''https://example.test'',
         req_path = ustr ''/ping'', req_query = [], req_headers = [], req_body = [],
         req_tls = None\<rparr> (Some True)
      = Inr \<lparr>res_status = 502, res_response = ustr ''Bad Gateway'',
             res_headers = [(ustr ''Server'', ustr ''edge'')]\<rparr>"
proof -
  let ?w = "demo_world\<lparr>session_request :=
           (\<lambda>a. Inl (ClientResponseError 502 (ustr ''Bad Gateway'')
                       (Some [(ustr ''Server'', ustr ''edge'')])))\<rparr>"
  let ?rq = "\<lparr>req_method = ustr ''GET'', req_origin = ustr ''https://example.test'',
         req_path = ustr ''/ping'', req_query = [], req_headers = [], req_body = [],
         req_tls = None\<rparr>"
  have e: "utf8_encode (req_body ?rq) = Inr []" by simp
  have c: "get_ssl_context ?w (req_tls ?rq) = Inr (create_unverified_context ?w)"
    by (simp add: get_ssl_context_def)
  show ?thesis
    using makeRequest_normalizes_ClientResponseError [OF e c refl, where st = 502 and msg = "ustr ''Bad Gateway''"
        and hs = "Some [(ustr ''Server'', ustr ''edge'')]" and follow = "Some True"] e
    by simp
qed

lemma utf8_cons_Inl_iff: "utf8_cons c r = Inl e \<longleftrightarrow> r = Inl e"
  by (cases r) (simp_all add: utf8_cons_def)

lemma utf8_decode_nat_error: "utf8_decode_nat bs = Inl e \<Longrightarrow> e = UnicodeDecodeError"
proof (induction bs rule: utf8_decode_nat.induct)
  case 1
  then show ?case by simp
next
  case (2 a bs)
  show ?case
  proof (cases "a < 0x80")
    case True
    with 2 show ?thesis by (simp add: utf8_cons_Inl_iff)
  next
    case F1: False
    show ?thesis
    proof (cases "0xC2 \<le> a \<and> a \<le> 0xDF")
      case True
      with F1 2 show ?thesis
        by (simp add: utf8_cons_Inl_iff split: list.splits if_splits)
    next
      case F2: False
      show ?thesis
      proof (cases "0xE0 \<le> a \<and> a \<le> 0xEF")
        case True
        with F1 F2 2(3,5) show ?thesis
          by (simp add: utf8_cons_Inl_iff split: list.splits if_splits)
      next
        case F3: False
        show ?thesis
        proof (cases "0xF0 \<le> a \<and> a \<le> 0xF4")
          case True
          with F1 F2 F3 2(4,5) show ?thesis
            by (simp add: utf8_cons_Inl_iff split: list.splits if_splits)
        next
          case False
          then have "utf8_decode_nat (a # bs) = Inl UnicodeDecodeError"
            using F1 F2 F3 by auto
          with 2(5) show ?thesis by simp
        qed
      qed
    qed
  qed
qed

lemma utf8_decode_error: "utf8_decode bs = Inl e \<Longrightarrow> e = UnicodeDecodeError"
  by (simp add: utf8_decode_def utf8_decode_nat_error)

lemma handle_binary_response_not_zip:
  "ZipFile w raw = Inl BadZipFile \<Longrightarrow> handle_binary_response w raw = Inr raw"
  by (simp add: handle_binary_response_def)

lemma handle_binary_response_first_entry:
  "ZipFile w raw = Inr archive \<Longrightarrow> namelist archive = n # ns \<Longrightarrow>
   zip_read archive n = Inr content \<Longrightarrow> handle_binary_response w raw = Inr content"
  by (simp add: handle_binary_response_def)

lemma read_response_octet_stream:
  "headers_get w (resp_headers resp) (ustr ''Content-Type'')
     = Some (ustr ''application/octet-stream'') \<Longrightarrow>
   resp_read resp = Inr raw \<Longrightarrow> handle_binary_response w raw = Inr content \<Longrightarrow>
   read_response w resp =
     (case utf8_decode content of
        Inl e \<Rightarrow> Inl UnicodeDecodeError
      | Inr txt \<Rightarrow>
          Inr \<lparr>res_status = resp_status resp, res_response = txt,
               res_headers = resp_headers resp\<rparr>)"
  by (auto simp: read_response_def split: sum.splits dest: utf8_decode_error)

lemma makeRequest_octet_stream:
  assumes "utf8_encode (req_body request) = Inr data"
    and "get_ssl_context w (req_tls request) = Inr ctx"
    and "session_request w
           \<lparr>arg_method = req_method request,
            arg_url = req_origin request @ req_path request,
            arg_params = req_query request, arg_data = data,
            arg_headers = req_headers request, arg_ssl = ctx,
            arg_allow_redirects = follow\<rparr> = Inr resp"
    and "headers_get w (resp_headers resp) (ustr ''Content-Type'')
           = Some (ustr ''application/octet-stream'')"
    and "resp_read resp = Inr raw"
    and "handle_binary_response w raw = Inr content"
  shows "makeRequest w request follow =
     (case utf8_decode content of
        Inl e \<Rightarrow> Inl UnicodeDecodeError
      | Inr txt \<Rightarrow>
          Inr \<lparr>res_status = resp_status resp, res_response = txt,
               res_headers = resp_headers resp\<rparr>)"
  using makeRequest_try [OF assms(1) assms(2), of follow] assms(3)
    read_response_octet_stream [OF assms(4) assms(5) assms(6)]
  by (simp split: sum.splits)

text \<open>
  C8, as amended. For a response whose \<open>Content-Type\<close> is exactly
  \<open>application/octet-stream\<close>: when the body opens as a zip archive and its first
  entry reads, \<open>_handle_binary_response\<close> returns the bytes of that entry; when
  \<open>ZipFile\<close> raises \<open>BadZipFile\<close>, it returns the raw body and raises nothing. In both
  cases \<open>makeRequest\<close> then decodes those bytes as UTF-8: if they are valid UTF-8 the
  decoded string is the \<open>response\<close> of the result, with the status and headers of the
  response, and if they are not it raises \<open>UnicodeDecodeError\<close>.
\<close>

theorem makeRequest_octet_stream_unwrap:
  assumes "utf8_encode (req_body request) = Inr data"
    and "get_ssl_context w (req_tls request) = Inr ctx"
    and "session_request w
           \<lparr>arg_method = req_method request,
            arg_url = req_origin request @ req_path request,
            arg_params = req_query request, arg_data = data,
            arg_headers = req_headers request, arg_ssl = ctx,
            arg_allow_redirects = follow\<rparr> = Inr resp"
    and "headers_get w (resp_headers resp) (ustr ''Content-Type'')
           = Some (ustr ''application/octet-stream'')"
    and "resp_read resp = Inr raw"
  shows
    "(ZipFile w raw = Inl BadZipFile \<longrightarrow>
        handle_binary_response w raw = Inr raw
        \<and> makeRequest w request follow =
            (case utf8_decode raw of
               Inl e \<Rightarrow> Inl UnicodeDecodeError
             | Inr txt \<Rightarrow>
                 Inr \<lparr>res_status = resp_status resp, res_response = txt,
                      res_headers = resp_headers resp\<rparr>))
     \<and> (\<forall>archive n ns content.
          ZipFile w raw = Inr archive \<and> namelist archive = n # ns
          \<and> zip_read archive n = Inr content \<longrightarrow>
            handle_binary_response w raw = Inr content
            \<and> makeRequest w request follow =
                (case utf8_decode content of
                   Inl e \<Rightarrow> Inl UnicodeDecodeError
                 | Inr txt \<Rightarrow>
                     Inr \<lparr>res_status = resp_status resp, res_response = txt,
                          res_headers = resp_headers resp\<rparr>))"
proof -
  have a: "handle_binary_response w raw = Inr raw
        \<and> makeRequest w request follow =
            (case utf8_decode raw of
               Inl e \<Rightarrow> Inl UnicodeDecodeError
             | Inr txt \<Rightarrow>
                 Inr \<lparr>res_status = resp_status resp, res_response = txt,
                      res_headers = resp_headers resp\<rparr>)"
    if "ZipFile w raw = Inl BadZipFile"
    using handle_binary_response_not_zip [OF that]
      makeRequest_octet_stream [OF assms handle_binary_response_not_zip [OF that]]
    by simp
  have b: "handle_binary_response w raw = Inr content
            \<and> makeRequest w request follow =
                (case utf8_decode content of
                   Inl e \<Rightarrow> Inl UnicodeDecodeError
                 | Inr txt \<Rightarrow>
                     Inr \<lparr>res_status = resp_status resp, res_response = txt,
                          res_headers = resp_headers resp\<rparr>)"
    if "ZipFile w raw = Inr archive" "namelist archive = n # ns"
      "zip_read archive n = Inr content" for archive n ns content
    using handle_binary_response_first_entry [OF that]
      makeRequest_octet_stream [OF assms handle_binary_response_first_entry [OF that]]
    by simp
  show ?thesis using a b by blast
qed


theorem makeRequest_octet_stream_unwrap_witness:
  "makeRequest
     (demo_world\<lparr>session_request := (\<lambda>a. Inr
        \<lparr>resp_status = 200,
         resp_headers = [(ustr ''Content-Type'', ustr ''application/octet-stream'')],
         resp_read = Inr (map of_nat (ustr ''not a zip'')),
         resp_text = Inr (ustr ''not a zip'')\<rparr>)\<rparr>)
     \<lparr>req_method = ustr ''GET'', req_origin = ustr ''https://example.test'',
      req_path = ustr ''/export'', req_query = [], req_headers = [], req_body = [],
      req_tls = None\<rparr> (Some True)
   = Inr \<lparr>res_status = 200, res_response = ustr ''not a zip'',
          res_headers = [(ustr ''Content-Type'', ustr ''application/octet-stream'')]\<rparr>
   \<and> makeRequest
     (demo_world\<lparr>session_request := (\<lambda>a. Inr
        \<lparr>resp_status = 200,
         resp_headers = [(ustr ''content-type'', ustr ''application/octet-stream'')],
         resp_read = Inr [80, 75, 3, 4],
         resp_text = Inl UnicodeDecodeError\<rparr>),
       ZipFile := (\<lambda>bs. Inr \<lparr>namelist = [ustr ''data.json''],
                    zip_read = (\<lambda>n. Inr (map of_nat (ustr ''{\"ok\":true}'')))\<rparr>)\<rparr>)
     \<lparr>req_method = ustr ''GET'', req_origin = ustr ''https://example.test'',
      req_path = ustr ''/export'', req_query = [], req_headers = [], req_body = [],
      req_tls = None\<rparr> (Some True)
   = Inr \<lparr>res_status = 200, res_response = ustr ''{\"ok\":true}'',
          res_headers = [(ustr ''content-type'', ustr ''application/octet-stream'')]\<rparr>"
proof -
  let ?r1 = "\<lparr>resp_status = 200,
         resp_headers = [(ustr ''Content-Type'', ustr ''application/octet-stream'')],
         resp_read = Inr (map of_nat (ustr ''not a zip'')),
         resp_text = Inr (ustr ''not a zip'')\<rparr>"
  let ?w1 = "demo_world\<lparr>session_request := (\<lambda>a. Inr ?r1)\<rparr>"
  let ?r2 = "\<lparr>resp_status = 200,
         resp_headers = [(ustr ''content-type'', ustr ''application/octet-stream'')],
         resp_read = Inr [80, 75, 3, 4],
         resp_text = Inl UnicodeDecodeError\<rparr>"
  let ?ar = "\<lparr>namelist = [ustr ''data.json''],
                    zip_read = (\<lambda>n. Inr (map of_nat (ustr ''{\"ok\":true}'')))\<rparr>"
  let ?w2 = "demo_world\<lparr>session_request := (\<lambda>a. Inr ?r2), ZipFile := (\<lambda>bs. Inr ?ar)\<rparr>"
  let ?rq = "\<lparr>req_method = ustr ''GET'', req_origin = ustr ''https://example.test'',
      req_path = ustr ''/export'', req_query = [], req_headers = [], req_body = [],
      req_tls = None\<rparr>"
  have e: "utf8_encode (req_body ?rq) = Inr []" by simp
  have c1: "get_ssl_context ?w1 (req_tls ?rq) = Inr (create_unverified_context ?w1)"
    and c2: "get_ssl_context ?w2 (req_tls ?rq) = Inr (create_unverified_context ?w2)"
    by (simp_all add: get_ssl_context_def)
  have h1: "headers_get ?w1 (resp_headers ?r1) (ustr ''Content-Type'')
              = Some (ustr ''application/octet-stream'')"
    and h2: "headers_get ?w2 (resp_headers ?r2) (ustr ''Content-Type'')
              = Some (ustr ''application/octet-stream'')"
    by (simp_all add: headers_get_def demo_world_def ustr_def)
  have z1: "ZipFile ?w1 (map of_nat (ustr ''not a zip'')) = Inl BadZipFile"
    by (simp add: demo_world_def)
  have d1: "utf8_decode (map of_nat (ustr ''not a zip'')) = Inr (ustr ''not a zip'')"
    by code_simp
  have d2: "utf8_decode (map of_nat (ustr ''{\"ok\":true}'')) = Inr (ustr ''{\"ok\":true}'')"
    by code_simp
  have m1: "makeRequest ?w1 ?rq (Some True)
     = Inr \<lparr>res_status = 200, res_response = ustr ''not a zip'',
          res_headers = [(ustr ''Content-Type'', ustr ''application/octet-stream'')]\<rparr>"
    using makeRequest_octet_stream_unwrap
      [of ?rq "[]" ?w1 "create_unverified_context ?w1" "Some True" ?r1
          "map of_nat (ustr ''not a zip'')", OF e c1 _ h1] z1 d1
    by simp
  have m2: "makeRequest ?w2 ?rq (Some True)
     = Inr \<lparr>res_status = 200, res_response = ustr ''{\"ok\":true}'',
          res_headers = [(ustr ''content-type'', ustr ''application/octet-stream'')]\<rparr>"
    using makeRequest_octet_stream_unwrap
      [of ?rq "[]" ?w2 "create_unverified_context ?w2" "Some True" ?r2
          "[80, 75, 3, 4]", OF e c2 _ h2] d2
    by simp
  show ?thesis using m1 m2 by simp
qed

text \<open>
  The claim as first stated fails on a body that is neither a zip archive nor valid
  UTF-8: the single byte \<open>FF\<close>. \<open>ZipFile\<close> raises \<open>BadZipFile\<close> (the body holds
  no end-of-central-directory record), the fallback returns the raw body, and the
  decoding raises \<open>UnicodeDecodeError\<close> out of \<open>makeRequest\<close>.
\<close>

theorem makeRequest_octet_stream_counterexample:
  "ZipFile demo_world [255] = Inl BadZipFile
   \<and> handle_binary_response demo_world [255] = Inr [255]
   \<and> makeRequest
     (demo_world\<lparr>session_request := (\<lambda>a. Inr
        \<lparr>resp_status = 200,
         resp_headers = [(ustr ''Content-Type'', ustr ''application/octet-stream'')],
         resp_read = Inr [255],
         resp_text = Inl UnicodeDecodeError\<rparr>)\<rparr>)
     \<lparr>req_method = ustr ''GET'', req_origin = ustr ''https://example.test'',
      req_path = ustr ''/export'', req_query = [], req_headers = [], req_body = [],
      req_tls = None\<rparr> (Some True)
   = Inl UnicodeDecodeError"
proof -
  let ?r = "\<lparr>resp_status = 200,
         resp_headers = [(ustr ''Content-Type'', ustr ''application/octet-stream'')],
         resp_read = Inr [255],
         resp_text = Inl UnicodeDecodeError\<rparr>"
  let ?w = "demo_world\<lparr>session_request := (\<lambda>a. Inr ?r)\<rparr>"
  let ?rq = "\<lparr>req_method = ustr ''GET'', req_origin = ustr ''https://example.test'',
      req_path = ustr ''/export'', req_query = [], req_headers = [], req_body = [],
      req_tls = None\<rparr>"
  have z: "ZipFile demo_world [255] = Inl BadZipFile" "ZipFile ?w [255] = Inl BadZipFile"
    by (simp_all add: demo_world_def)
  have e: "utf8_encode (req_body ?rq) = Inr []" by simp
  have c: "get_ssl_context ?w (req_tls ?rq) = Inr (create_unverified_context ?w)"
    by (simp add: get_ssl_context_def)
  have h: "headers_get ?w (resp_headers ?r) (ustr ''Content-Type'')
              = Some (ustr ''application/octet-stream'')"
    by (simp add: headers_get_def demo_world_def ustr_def)
  have d: "utf8_decode [255] = Inl UnicodeDecodeError"
    by code_simp
  have m: "makeRequest ?w ?rq (Some True) = Inl UnicodeDecodeError"
    using makeRequest_octet_stream
      [of ?rq "[]" ?w "create_unverified_context ?w" "Some True" ?r "[255]" "[255]",
       OF e c _ h _ handle_binary_response_not_zip [OF z(2)]] d
    by simp
  show ?thesis
    using z(1) handle_binary_response_not_zip [OF z(1)] m by simp
qed

subsection \<open>Fixed-width signatures\<close>

lemma length_be_bytes: "length (be_bytes k n) = k"
  by (induction k arbitrary: n) simp_all

lemma be_nat_snoc: "be_nat (xs @ [b]) = be_nat xs * 256 + b"
  by (simp add: be_nat_def)

lemma be_nat_be_bytes: "be_nat (map unat (be_bytes k n)) = n mod 256 ^ k"
proof (induction k arbitrary: n)
  case 0
  then show ?case by (simp add: be_nat_def)
next
  case (Suc k)
  have "be_nat (map unat (be_bytes (Suc k) n))
          = (n div 256) mod 256 ^ k * 256 + n mod 256"
    by (simp add: be_nat_snoc Suc unat_of_nat)
  also have "\<dots> = n mod 256 ^ Suc k"
    by (simp add: mod_mult2_eq)
  finally show ?case .
qed

lemma int_to_bytes_fixed_width:
  assumes "0 < k" and "0 \<le> i" and "i < 256 ^ k"
  shows "int_to_bytes i (Some k) = Inr (be_bytes k (nat i))"
  using assms by (simp add: int_to_bytes_def to_bytes_big_def)

lemma int_to_bytes_overflow:
  assumes "0 < k" and "256 ^ k \<le> i"
  shows "int_to_bytes i (Some k) = Inl OverflowError"
  using assms by (simp add: int_to_bytes_def to_bytes_big_def)

lemma der_uint_nonneg: "der_uint bs = Some (i, rest) \<Longrightarrow> 0 \<le> i"
  by (auto simp: der_uint_def split: option.splits list.splits if_splits prod.splits)

lemma decode_dss_signature_nonneg:
  "decode_dss_signature sg = Inr (r, s) \<Longrightarrow> 0 \<le> r \<and> 0 \<le> s"
  by (auto simp: decode_dss_signature_def split: option.splits if_splits prod.splits
      dest: der_uint_nonneg)

text \<open>
  What \<open>_decode_signature\<close> does with \<open>SHA256\<close> when both integers are below
  \<open>2 ^ 256\<close>, as they are for every curve of at most 256 bits: it returns exactly 64
  bytes, the 32 bytes whose big-endian value is \<open>r\<close> followed by the 32 bytes whose
  big-endian value is \<open>s\<close>, whatever the length of the DER input.
\<close>

lemma decode_signature_fixed_width:
  assumes "decode_dss_signature sg = Inr (r, s)"
    and "r < 2 ^ 256" and "s < 2 ^ 256"
  shows "decode_signature sg (ustr ''SHA256'')
           = Inr (be_bytes 32 (nat r) @ be_bytes 32 (nat s))
         \<and> length (be_bytes 32 (nat r) @ be_bytes 32 (nat s)) = 64
         \<and> length (be_bytes 32 (nat r)) = 32
         \<and> int (be_nat (map unat (be_bytes 32 (nat r)))) = r
         \<and> int (be_nat (map unat (be_bytes 32 (nat s)))) = s"
proof -
  have nn: "0 \<le> r" "0 \<le> s"
    using decode_dss_signature_nonneg [OF assms(1)] by simp_all
  have rb: "int_to_bytes r (Some 32) = Inr (be_bytes 32 (nat r))"
    by (rule int_to_bytes_fixed_width) (use nn assms(2) in simp_all)
  have sb: "int_to_bytes s (Some 32) = Inr (be_bytes 32 (nat s))"
    by (rule int_to_bytes_fixed_width) (use nn assms(3) in simp_all)
  have d: "decode_signature sg (ustr ''SHA256'')
             = Inr (be_bytes 32 (nat r) @ be_bytes 32 (nat s))"
    by (simp add: decode_signature_SHA256 assms(1) rb sb)
  have "nat r < 256 ^ 32" "nat s < 256 ^ 32"
    using nn assms(2,3) by (simp_all add: nat_less_iff)
  then have v: "be_nat (map unat (be_bytes 32 (nat r))) = nat r"
    "be_nat (map unat (be_bytes 32 (nat s))) = nat s"
    by (simp_all only: be_nat_be_bytes mod_less)
  show ?thesis
    using d v nn by (simp add: length_be_bytes)
qed

lemma decode_signature_fixed_width_example:
  "decode_dss_signature [48, 7, 2, 2, 0, 255, 2, 1, 2] = Inr (255, 2)
   \<and> decode_signature [48, 7, 2, 2, 0, 255, 2, 1, 2] (ustr ''SHA256'')
      = Inr (replicate 31 0 @ [255] @ replicate 31 0 @ [2])
   \<and> length (replicate 31 (0 :: 8 word) @ [255] @ replicate 31 0 @ [2]) = 64"
proof -
  have d: "decode_dss_signature [48, 7, 2, 2, 0, 255, 2, 1, 2] = Inr (255, 2)"
    by code_simp
  have b: "be_bytes 32 (nat 255) @ be_bytes 32 (nat 2)
             = replicate 31 0 @ [255] @ replicate 31 0 @ [2]"
    by code_simp
  show ?thesis
    using decode_signature_fixed_width [OF d] d b by simp
qed

text \<open>
  When one of the integers does not fit in 32 bytes, \<open>int_to_bytes\<close> raises
  \<open>OverflowError\<close> and so does \<open>_decode_signature\<close>: it returns for no signature
  whose \<open>r\<close> or \<open>s\<close> reaches \<open>2 ^ 256\<close>.
\<close>

lemma decode_signature_overflow:
  assumes "decode_dss_signature sg = Inr (r, s)"
    and "2 ^ 256 \<le> r \<or> 2 ^ 256 \<le> s"
  shows "decode_signature sg (ustr ''SHA256'') = Inl OverflowError"
proof (cases "2 ^ 256 \<le> r")
  case True
  then have "int_to_bytes r (Some 32) = Inl OverflowError"
    by (intro int_to_bytes_overflow) simp_all
  then show ?thesis
    by (simp add: decode_signature_SHA256 assms(1))
next
  case False
  have nn: "0 \<le> r"
    using decode_dss_signature_nonneg [OF assms(1)] by simp
  have rb: "int_to_bytes r (Some 32) = Inr (be_bytes 32 (nat r))"
    by (rule int_to_bytes_fixed_width) (use nn False in simp_all)
  from False assms(2) have "2 ^ 256 \<le> s" by simp
  then have "int_to_bytes s (Some 32) = Inl OverflowError"
    by (intro int_to_bytes_overflow) simp_all
  then show ?thesis
    by (simp add: decode_signature_SHA256 assms(1) rb)
qed

lemma p384_signature_decodes:
  "decode_dss_signature p384_signature = Inr (2 ^ 380, 2 ^ 380)"
  by (simp add: p384_signature_def decode_dss_signature_def der_tlv_def der_length_def
      der_uint_def be_nat_def)

text \<open>
  C4. \<open>signWithKey\<close> accepts every elliptic-curve key, and the width of the
  re-encoding comes from the hash (256 bits), not from the curve. For an ECDSA
  signature over SHA-256 made with a P-384 key, whose DER encoding holds two integers
  of 48 bytes (here \<open>r = s = 2 ^ 380\<close>), \<open>int_to_bytes r 32\<close> raises
  \<open>OverflowError\<close>: \<open>_decode_signature\<close> returns no 64 bytes, it raises, and
  \<open>signWithKey\<close> with it, where the key file \<open>/app/open_banking_certs/bank.key\<close>
  holds the P-384 key.
\<close>

theorem decode_signature_p384_raises_OverflowError:
  "decode_dss_signature p384_signature = Inr (2 ^ 380, 2 ^ 380)
   \<and> length p384_signature = 102
   \<and> int_to_bytes (2 ^ 380) (Some 32) = Inl OverflowError
   \<and> decode_signature p384_signature (ustr ''SHA256'') = Inl OverflowError
   \<and> signWithKey
        (demo_world\<lparr>load_pem_private_key := (\<lambda>pem password. Inr (EllipticCurvePrivateKey 0)),
                     ec_sign := (\<lambda>k d h. Inr p384_signature)\<rparr>)
        (Str (ustr ''payload'')) (ustr ''bank.key'') None None
      = Inl OverflowError"
proof -
  let ?s = "demo_world\<lparr>load_pem_private_key := (\<lambda>pem password. Inr (EllipticCurvePrivateKey 0)),
                     ec_sign := (\<lambda>k d h. Inr p384_signature)\<rparr>"
  have i: "int_to_bytes (2 ^ 380) (Some 32) = Inl OverflowError"
    by (intro int_to_bytes_overflow) simp_all
  have d: "decode_signature p384_signature (ustr ''SHA256'') = Inl OverflowError"
    by (rule decode_signature_overflow [OF p384_signature_decodes]) simp
  have n: "length p384_signature = 102"
    by (simp add: p384_signature_def)
  have p: "get_ob_certs_file_path ?s (ustr ''bank.key'')
             = Inr (ustr ''/app/open_banking_certs/bank.key'')"
    by code_simp
  have a: "list_all (\<lambda>c. c < 128) (ustr ''bank.key'')"
    by (simp add: ustr_def)
  have k: "key_password ?s (ustr ''bank.key'') = Inr None"
    using key_password_ascii [OF a, of ?s] by (simp add: demo_world_def)
  have s: "select_hash ?s None = Inr (ustr ''SHA256'', SHA256)"
    by (simp add: select_hash_cases upper_SHA256)
  have f: "force_bytes (Str (ustr ''payload'')) = Inr (bstr ''payload'')"
    by (simp add: force_bytes_def ustr_def bstr_def utf8_encode_cp_def)
  have o: "open_rb_read demo_world (ustr ''/app/open_banking_certs/bank.key'') = Inr []"
    by (simp add: demo_world_def)
  have e: "sign_by_key_type ?s (EllipticCurvePrivateKey 0) (bstr ''payload'')
             (ustr ''SHA256'') SHA256 None = Inl OverflowError"
    by (simp add: sign_by_key_type_def d)
  have "signWithKey ?s (Str (ustr ''payload'')) (ustr ''bank.key'') None None
          = Inl OverflowError"
    by (simp add: signWithKey_def s f p k o e)
  then show ?thesis
    using p384_signature_decodes i d n by simp
qed

subsection \<open>Path resolution\<close>

text \<open>Components that \<open>split\<close> and \<open>join\<close> keep apart: not empty, no separator, not \<open>.\<close>\<close>

lemma split_sep_nonempty: "split_sep sep s \<noteq> []"
  by (induction s) (simp_all add: Let_def)

lemma split_sep_no_sep: "sep \<notin> set s \<Longrightarrow> split_sep sep s = [s]"
  by (induction s) (simp_all add: Let_def)

lemma split_sep_append:
  "sep \<notin> set a \<Longrightarrow> split_sep sep (a @ sep # b) = a # split_sep sep b"
  by (induction a) (simp_all add: Let_def)

lemma split_sep_parts: "c \<in> set (split_sep sep s) \<Longrightarrow> sep \<notin> set c"
proof (induction s arbitrary: c)
  case Nil
  then show ?case by simp
next
  case (Cons x s)
  obtain h t where r: "split_sep sep s = h # t"
    using split_sep_nonempty [of sep s] by (cases "split_sep sep s") auto
  show ?case
  proof (cases "x = sep")
    case True
    then show ?thesis using Cons by (auto simp: Let_def)
  next
    case False
    then have "c = x # h \<or> c \<in> set t"
      using Cons.prems r by (simp add: Let_def)
    moreover have "sep \<notin> set h" "\<And>d. d \<in> set t \<Longrightarrow> sep \<notin> set d"
      using Cons.IH r by simp_all
    ultimately show ?thesis using False by auto
  qed
qed

lemma split_join:
  "\<forall>c \<in> set cs. 47 \<notin> set c \<Longrightarrow> cs \<noteq> [] \<Longrightarrow>
   split_sep 47 (join_str [47] cs) = cs"
proof (induction cs)
  case Nil
  then show ?case by simp
next
  case (Cons x cs)
  show ?case
  proof (cases cs)
    case Nil
    then show ?thesis using Cons.prems by (simp add: split_sep_no_sep)
  next
    case (Cons y ys)
    have "split_sep 47 (x @ 47 # join_str [47] (y # ys)) = x # split_sep 47 (join_str [47] (y # ys))"
      using Cons.prems by (simp add: split_sep_append)
    then show ?thesis
      using Cons.IH Cons.prems Cons by simp
  qed
qed

lemma path_comps_slash: "path_comps (47 # s) = path_comps s"
  by (simp add: path_comps_def Let_def)

lemma path_comps_join:
  assumes "\<forall>c \<in> set cs. c \<noteq> [] \<and> 47 \<notin> set c \<and> c \<noteq> dot"
  shows "path_comps (join_str [47] cs) = cs"
proof (cases "cs = []")
  case True
  then show ?thesis by (simp add: path_comps_def)
next
  case False
  then have "split_sep 47 (join_str [47] cs) = cs"
    using assms split_join by blast
  then show ?thesis
    using assms by (simp add: path_comps_def filter_id_conv)
qed

lemma path_comps_rooted:
  assumes "\<forall>c \<in> set cs. c \<noteq> [] \<and> 47 \<notin> set c \<and> c \<noteq> dot"
  shows "path_comps (replicate i 47 @ join_str [47] cs) = cs"
  by (induction i) (simp_all add: path_comps_join [OF assms] path_comps_slash)

lemma normpath_loop_clean:
  "\<forall>c \<in> set comps. 47 \<notin> set c \<Longrightarrow>
   \<forall>c \<in> set acc. c \<noteq> [] \<and> 47 \<notin> set c \<and> c \<noteq> dot \<Longrightarrow>
   \<forall>c \<in> set (normpath_loop i comps acc). c \<noteq> [] \<and> 47 \<notin> set c \<and> c \<noteq> dot"
proof (induction i comps acc rule: normpath_loop.induct)
  case (1 i new_comps)
  then show ?case by (simp only: normpath_loop.simps)
next
  case (2 i cmp comps new_comps)
  have rest: "\<forall>c \<in> set comps. 47 \<notin> set c" and cmp: "47 \<notin> set cmp"
    using "2.prems"(1) by simp_all
  note acc = "2.prems"(2)
  show ?case
  proof (cases "cmp = [] \<or> cmp = dot")
    case True
    have e: "normpath_loop i (cmp # comps) new_comps = normpath_loop i comps new_comps"
      using True by (simp only: normpath_loop.simps if_True)
    show ?thesis
      unfolding e by (rule "2.IH"(1) [OF True rest acc])
  next
    case skip: False
    show ?thesis
    proof (cases "cmp \<noteq> dotdot \<or> (i = 0 \<and> new_comps = [])
                  \<or> (new_comps \<noteq> [] \<and> last new_comps = dotdot)")
      case True
      have e: "normpath_loop i (cmp # comps) new_comps
                 = normpath_loop i comps (new_comps @ [cmp])"
        using skip True by (simp only: normpath_loop.simps if_False if_True simp_thms)
      have "cmp \<noteq> [] \<and> 47 \<notin> set cmp \<and> cmp \<noteq> dot"
        using cmp skip by blast
      then have "\<forall>c \<in> set (new_comps @ [cmp]). c \<noteq> [] \<and> 47 \<notin> set c \<and> c \<noteq> dot"
        using acc by (simp only: set_append ball_Un list.set ball_simps) blast
      then show ?thesis
        unfolding e by (rule "2.IH"(2) [OF skip True rest])
    next
      case up: False
      show ?thesis
      proof (cases "new_comps \<noteq> []")
        case True
        have e: "normpath_loop i (cmp # comps) new_comps
                   = normpath_loop i comps (butlast new_comps)"
          using skip up True by (simp only: normpath_loop.simps if_False if_True simp_thms)
        have "\<forall>c \<in> set (butlast new_comps). c \<noteq> [] \<and> 47 \<notin> set c \<and> c \<noteq> dot"
          using acc by (meson in_set_butlastD)
        then show ?thesis
          unfolding e by (rule "2.IH"(3) [OF skip up True rest])
      next
        case False
        have e: "normpath_loop i (cmp # comps) new_comps = normpath_loop i comps new_comps"
          using skip up False by (simp only: normpath_loop.simps if_False if_True simp_thms)
        show ?thesis
          unfolding e by (rule "2.IH"(4) [OF skip up False rest acc])
      qed
    qed
  qed
qed

lemma join_clean_no_leading_sep:
  assumes "\<forall>c \<in> set cs. c \<noteq> [] \<and> 47 \<notin> set c \<and> c \<noteq> dot"
  shows "\<not> startswith_sep (join_str [47] cs)"
proof (cases cs)
  case Nil
  then show ?thesis by (simp add: startswith_sep_def)
next
  case (Cons x xs)
  then obtain a r where x: "x = a # r" and a: "a \<noteq> 47"
    using assms by (cases x) auto
  show ?thesis
    using Cons x a by (cases xs) (simp_all add: startswith_sep_def)
qed

lemma initial_slashes_abs:
  "startswith_sep q \<Longrightarrow> initial_slashes q = 1 \<or> initial_slashes q = 2"
  by (simp add: initial_slashes_def)

text \<open>The normal form of an absolute path: one or two slashes, then clean components.\<close>

lemma normpath_abs:
  assumes "startswith_sep q"
  shows "\<exists>cs. (\<forall>c \<in> set cs. c \<noteq> [] \<and> 47 \<notin> set c \<and> c \<noteq> dot)
           \<and> normpath q = replicate (initial_slashes q) 47 @ join_str [47] cs"
proof -
  let ?i = "initial_slashes q"
  let ?cs = "normpath_loop ?i (split_sep 47 q) []"
  have i: "?i = 1 \<or> ?i = 2" using assms by (rule initial_slashes_abs)
  have q: "q \<noteq> []" using assms by (auto simp: startswith_sep_def)
  have cs: "\<forall>c \<in> set ?cs. c \<noteq> [] \<and> 47 \<notin> set c \<and> c \<noteq> dot"
    by (rule normpath_loop_clean) (simp_all add: split_sep_parts)
  have "replicate ?i 47 @ join_str [47] ?cs \<noteq> []"
    using i by auto
  then have "normpath q = replicate ?i 47 @ join_str [47] ?cs"
    using i q by (auto simp: normpath_def Let_def)
  then show ?thesis using cs by blast
qed

lemma common_loop_sorted:
  "s1 \<le> s2 \<Longrightarrow> common_loop s1 s2 = Inr (longest_common_prefix s1 s2)"
  by (induction s1 s2 rule: common_loop.induct) auto

lemma longest_common_prefix_commute:
  "longest_common_prefix xs ys = longest_common_prefix ys xs"
  by (induction xs ys rule: longest_common_prefix.induct) auto

lemma common_loop_min_max:
  fixes c1 c2 :: "str list"
  shows "common_loop (min c1 c2) (max c1 c2) = Inr (longest_common_prefix c1 c2)"
proof (cases "c1 \<le> c2")
  case True
  then show ?thesis by (simp add: min_def max_def common_loop_sorted)
next
  case False
  then have "c2 \<le> c1" by simp
  then show ?thesis
    using False
    by (simp add: min_def max_def common_loop_sorted longest_common_prefix_commute [of c1 c2])
qed

lemma commonpath2_abs:
  "startswith_sep a \<Longrightarrow> startswith_sep b \<Longrightarrow>
   commonpath2 a b
     = Inr (47 # join_str [47] (longest_common_prefix (path_comps a) (path_comps b)))"
  by (simp add: commonpath2_def Let_def common_loop_min_max)

lemma longest_common_prefix_eq_iff:
  "longest_common_prefix xs ys = xs \<longleftrightarrow> prefix xs ys"
proof
  assume "longest_common_prefix xs ys = xs"
  then show "prefix xs ys"
    using longest_common_prefix_prefix2 [of xs ys] by simp
next
  assume "prefix xs ys"
  then have "prefix xs (longest_common_prefix xs ys)"
    by (simp add: longest_common_prefix_max_prefix)
  then show "longest_common_prefix xs ys = xs"
    using longest_common_prefix_prefix1 [of xs ys] by (simp add: prefix_order.antisym)
qed

lemma prefix_join:
  "prefix xs ys \<Longrightarrow> prefix (join_str sep xs) (join_str sep ys)"
proof (induction sep xs arbitrary: ys rule: join_str.induct)
  case (1 sep)
  then show ?case by simp
next
  case (2 sep x)
  then obtain zs where "ys = x # zs" by (cases ys) auto
  then show ?case by (cases zs) simp_all
next
  case (3 sep x y rest)
  then obtain zs where ys: "ys = x # zs" and p: "prefix (y # rest) zs"
    by (cases ys) auto
  then obtain zs' where zs: "zs = y # zs'" by (cases zs) auto
  show ?case
    using 3(1) [OF p] by (simp add: ys zs)
qed

lemma path_join_abs: "startswith_sep a \<Longrightarrow> startswith_sep (path_join a b)"
  by (cases a) (auto simp: path_join_def startswith_sep_def)

lemma abspath_form:
  assumes "startswith_sep cwd"
  shows "\<exists>i cs. (i = 1 \<or> i = 2)
           \<and> (\<forall>c \<in> set cs. c \<noteq> [] \<and> 47 \<notin> set c \<and> c \<noteq> dot)
           \<and> abspath cwd x = replicate i 47 @ join_str [47] cs"
proof -
  let ?q = "if \<not> startswith_sep x then path_join cwd x else x"
  have q: "startswith_sep ?q"
    using assms path_join_abs by simp
  from normpath_abs [OF q] initial_slashes_abs [OF q]
  show ?thesis unfolding abspath_def by blast
qed

lemma rooted_abs: "i = 1 \<or> i = 2 \<Longrightarrow> startswith_sep (replicate i 47 @ s)"
  by (auto simp: startswith_sep_def numeral_2_eq_2)

text \<open>
  When does \<open>commonpath\<close> give back the first path? Both paths are in normal form,
  \<open>i\<close> and \<open>j\<close> slashes followed by the clean components \<open>R\<close> and \<open>A\<close>.
\<close>

lemma commonpath2_is_root:
  assumes i: "i = 1 \<or> i = 2" and j: "j = 1 \<or> j = 2"
    and R: "\<forall>c \<in> set R. c \<noteq> [] \<and> 47 \<notin> set c \<and> c \<noteq> dot"
    and A: "\<forall>c \<in> set A. c \<noteq> [] \<and> 47 \<notin> set c \<and> c \<noteq> dot"
  shows "commonpath2 (replicate i 47 @ join_str [47] R) (replicate j 47 @ join_str [47] A)
           = Inr (replicate i 47 @ join_str [47] R)
         \<longleftrightarrow> i = 1 \<and> prefix R A"
proof -
  let ?L = "longest_common_prefix R A"
  have L: "\<forall>c \<in> set ?L. c \<noteq> [] \<and> 47 \<notin> set c \<and> c \<noteq> dot"
    using R longest_common_prefix_prefix1 [of R A] by (meson set_mono_prefix subsetD)
  have cp: "commonpath2 (replicate i 47 @ join_str [47] R) (replicate j 47 @ join_str [47] A)
              = Inr (47 # join_str [47] ?L)"
    using commonpath2_abs [OF rooted_abs [OF i] rooted_abs [OF j]]
    by (simp add: path_comps_rooted [OF R] path_comps_rooted [OF A])
  show ?thesis
  proof (cases "i = 1")
    case True
    have "join_str [47] ?L = join_str [47] R \<longleftrightarrow> ?L = R"
      using path_comps_join [OF L] path_comps_join [OF R] by metis
    then show ?thesis
      using True cp by (simp add: longest_common_prefix_eq_iff)
  next
    case False
    then have i2: "i = 2" using i by simp
    have "join_str [47] ?L \<noteq> 47 # join_str [47] R"
      using join_clean_no_leading_sep [OF L] by (auto simp: startswith_sep_def)
    then show ?thesis
      using i2 cp by (simp add: numeral_2_eq_2)
  qed
qed

lemma take2_rooted:
  assumes "i = 1 \<or> i = 2"
    and "\<forall>c \<in> set R. c \<noteq> [] \<and> 47 \<notin> set c \<and> c \<noteq> dot"
  shows "take 2 (replicate i 47 @ join_str [47] R) \<noteq> [47, 47] \<longleftrightarrow> i = 1"
proof (cases "i = 1")
  case True
  have "\<not> startswith_sep (join_str [47] R)"
    using assms(2) by (rule join_clean_no_leading_sep)
  then show ?thesis
    using True by (cases "join_str [47] R") (simp_all add: startswith_sep_def)
next
  case False
  then have "i = 2" using assms(1) by simp
  then show ?thesis by (simp add: numeral_2_eq_2)
qed

lemma relative_join_single_slash:
  assumes R: "\<forall>c \<in> set R. c \<noteq> [] \<and> 47 \<notin> set c \<and> c \<noteq> dot"
    and p: "\<not> startswith_sep p"
  shows "initial_slashes (path_join (47 # join_str [47] R) p) = 1"
proof (cases "join_str [47] R")
  case Nil
  then have "path_join (47 # join_str [47] R) p = 47 # p"
    using p by (simp add: path_join_def)
  then show ?thesis
    using p by (cases p) (simp_all add: initial_slashes_def startswith_sep_def)
next
  case (Cons c r)
  then have c: "c \<noteq> 47"
    using join_clean_no_leading_sep [OF R] by (simp add: startswith_sep_def)
  have "\<exists>t. path_join (47 # join_str [47] R) p = 47 # c # t"
    using p Cons by (simp add: path_join_def)
  then show ?thesis
    using c by (auto simp: initial_slashes_def startswith_sep_def)
qed

text \<open>
  C1. The working directory of the process is an absolute path. Let \<open>root\<close> be the
  configured root and \<open>ap\<close> the canonical form of the join of \<open>root\<close> and \<open>p\<close>. Then
  \<open>_get_ob_certs_file_path\<close> raises its \<open>ValueError\<close> exactly when the common path of
  \<open>root\<close> and \<open>ap\<close> is not \<open>root\<close>, and returns \<open>ap\<close> otherwise; nothing else can
  happen. The common path is \<open>root\<close> exactly when the components of \<open>root\<close> are the
  leading components of \<open>ap\<close> (and \<open>root\<close> does not begin with a double slash). A
  returned path is absolute, lies under \<open>root\<close> component by component, and for a
  relative \<open>p\<close> has the string \<open>root\<close> as a prefix.
\<close>

theorem get_ob_certs_file_path_confined:
  assumes "startswith_sep (getcwd w)"
  shows
    "(let root = OB_CERTS_DIR w; ap = abspath (getcwd w) (path_join root p) in
      (get_ob_certs_file_path w p = Inl (ValueError (not_inside_msg p))
         \<longleftrightarrow> commonpath2 root ap \<noteq> Inr root)
      \<and> (get_ob_certs_file_path w p = Inr ap \<longleftrightarrow> commonpath2 root ap = Inr root)
      \<and> (commonpath2 root ap = Inr root
           \<longleftrightarrow> take 2 root \<noteq> [47, 47] \<and> prefix (path_comps root) (path_comps ap))
      \<and> (get_ob_certs_file_path w p = Inr ap \<longrightarrow>
            startswith_sep ap \<and> prefix (path_comps root) (path_comps ap)
            \<and> (\<not> startswith_sep p \<longrightarrow> prefix root ap)))"
proof -
  define root where "root = OB_CERTS_DIR w"
  define ap where "ap = abspath (getcwd w) (path_join root p)"
  obtain i R where i: "i = 1 \<or> i = 2"
    and R: "\<forall>c \<in> set R. c \<noteq> [] \<and> 47 \<notin> set c \<and> c \<noteq> dot"
    and root: "root = replicate i 47 @ join_str [47] R"
    using abspath_form [OF assms] unfolding root_def OB_CERTS_DIR_def by blast
  have rs: "startswith_sep root"
    unfolding root using i by (rule rooted_abs)
  have js: "startswith_sep (path_join root p)"
    using rs by (rule path_join_abs)
  have ap_norm: "ap = normpath (path_join root p)"
    using js by (simp add: ap_def abspath_def)
  obtain A where A: "\<forall>c \<in> set A. c \<noteq> [] \<and> 47 \<notin> set c \<and> c \<noteq> dot"
    and ap: "ap = replicate (initial_slashes (path_join root p)) 47 @ join_str [47] A"
    using normpath_abs [OF js] ap_norm by auto
  define j where "j = initial_slashes (path_join root p)"
  have j: "j = 1 \<or> j = 2"
    unfolding j_def using js by (rule initial_slashes_abs)
  have ap': "ap = replicate j 47 @ join_str [47] A"
    using ap j_def by simp
  have aps: "startswith_sep ap"
    unfolding ap' using j by (rule rooted_abs)
  have comps: "path_comps root = R" "path_comps ap = A"
    by (simp_all add: root ap' path_comps_rooted [OF R] path_comps_rooted [OF A])
  obtain cp where cp: "commonpath2 root ap = Inr cp"
    using commonpath2_abs [OF rs aps] by blast
  have res: "get_ob_certs_file_path w p
               = (if cp \<noteq> root then Inl (ValueError (not_inside_msg p)) else Inr ap)"
    using cp by (simp add: get_ob_certs_file_path_def Let_def root_def ap_def)
  have c1: "get_ob_certs_file_path w p = Inl (ValueError (not_inside_msg p))
         \<longleftrightarrow> commonpath2 root ap \<noteq> Inr root"
    using res cp by auto
  have c2: "get_ob_certs_file_path w p = Inr ap \<longleftrightarrow> commonpath2 root ap = Inr root"
    using res cp by auto
  have c3: "commonpath2 root ap = Inr root
           \<longleftrightarrow> take 2 root \<noteq> [47, 47] \<and> prefix (path_comps root) (path_comps ap)"
    using commonpath2_is_root [OF i j R A] take2_rooted [OF i R]
    by (simp add: comps root [symmetric] ap' [symmetric])
  have c4: "prefix root ap"
    if ok: "get_ob_certs_file_path w p = Inr ap" and rel: "\<not> startswith_sep p"
  proof -
    have pre: "i = 1" "prefix R A"
      using ok c2 c3 take2_rooted [OF i R] comps root by auto
    then have r1: "root = 47 # join_str [47] R" using root by simp
    have "j = 1"
      unfolding j_def r1 using R rel by (rule relative_join_single_slash)
    then have "ap = 47 # join_str [47] A" using ap' by simp
    then show ?thesis
      using r1 prefix_join [OF pre(2), of "[47]"] by simp
  qed
  have "(get_ob_certs_file_path w p = Inl (ValueError (not_inside_msg p))
         \<longleftrightarrow> commonpath2 root ap \<noteq> Inr root)
      \<and> (get_ob_certs_file_path w p = Inr ap \<longleftrightarrow> commonpath2 root ap = Inr root)
      \<and> (commonpath2 root ap = Inr root
           \<longleftrightarrow> take 2 root \<noteq> [47, 47] \<and> prefix (path_comps root) (path_comps ap))
      \<and> (get_ob_certs_file_path w p = Inr ap \<longrightarrow>
            startswith_sep ap \<and> prefix (path_comps root) (path_comps ap)
            \<and> (\<not> startswith_sep p \<longrightarrow> prefix root ap))"
    using c1 c2 c3 c4 aps by blast
  then show ?thesis
    unfolding Let_def root_def ap_def by simp
qed

theorem get_ob_certs_file_path_confined_witness:
  "startswith_sep (getcwd demo_world)
   \<and> OB_CERTS_DIR demo_world = ustr ''/app/open_banking_certs''
   \<and> get_ob_certs_file_path demo_world (ustr ''a/../b/./c.pem'')
       = Inr (ustr ''/app/open_banking_certs/b/c.pem'')
   \<and> prefix (ustr ''/app/open_banking_certs'') (ustr ''/app/open_banking_certs/b/c.pem'')
   \<and> get_ob_certs_file_path demo_world (ustr ''../bank.key'')
       = Inl (ValueError (not_inside_msg (ustr ''../bank.key'')))
   \<and> commonpath2 (ustr ''/app/open_banking_certs'') (ustr ''/app/bank.key'')
       \<noteq> Inr (ustr ''/app/open_banking_certs'')"
proof -
  have h: "startswith_sep (getcwd demo_world)"
    by code_simp
  have root: "OB_CERTS_DIR demo_world = ustr ''/app/open_banking_certs''"
    by code_simp
  have ap1: "abspath (getcwd demo_world)
               (path_join (ustr ''/app/open_banking_certs'') (ustr ''a/../b/./c.pem''))
             = ustr ''/app/open_banking_certs/b/c.pem''"
    by code_simp
  have ap2: "abspath (getcwd demo_world)
               (path_join (ustr ''/app/open_banking_certs'') (ustr ''../bank.key''))
             = ustr ''/app/bank.key''"
    by code_simp
  have r1: "get_ob_certs_file_path demo_world (ustr ''a/../b/./c.pem'')
              = Inr (ustr ''/app/open_banking_certs/b/c.pem'')"
    by code_simp
  have r2: "get_ob_certs_file_path demo_world (ustr ''../bank.key'')
              = Inl (ValueError (not_inside_msg (ustr ''../bank.key'')))"
    by code_simp
  have rel: "\<not> startswith_sep (ustr ''a/../b/./c.pem'')"
    by code_simp
  have p1: "prefix (ustr ''/app/open_banking_certs'') (ustr ''/app/open_banking_certs/b/c.pem'')"
    using get_ob_certs_file_path_confined [OF h, of "ustr ''a/../b/./c.pem''"] r1 rel
    by (simp add: Let_def root ap1)
  have p2: "commonpath2 (ustr ''/app/open_banking_certs'') (ustr ''/app/bank.key'')
              \<noteq> Inr (ustr ''/app/open_banking_certs'')"
    using get_ob_certs_file_path_confined [OF h, of "ustr ''../bank.key''"] r2
    by (simp add: Let_def root ap2)
  show ?thesis
    using h root r1 r2 p1 p2 by blast
qed

end
